theory Spec2Isabelle
  imports Main
begin

section \<open>JavaScript values and the built-in Map\<close>

text \<open>
  The server keeps plain object literals whose fields are strings
  (\<^verbatim>\<open>{ id: ..., username: ..., socketId: ... }\<close>). An object is the list of its
  fields in the order of the literal; reading a field that is not there gives
  \<^verbatim>\<open>undefined\<close>, which is \<open>None\<close>.
\<close>

type_synonym obj = "(string \<times> string) list"

definition field :: "obj \<Rightarrow> string \<Rightarrow> string option" where
  "field ob k = map_of ob k"

text \<open>
  \<^verbatim>\<open>!v\<close> for a value that is a string, \<^verbatim>\<open>undefined\<close> or \<^verbatim>\<open>null\<close>: only a
  non-empty string is truthy.
\<close>

definition truthy :: "string option \<Rightarrow> bool" where
  "truthy v = (case v of None \<Rightarrow> False | Some s \<Rightarrow> s \<noteq> [])"

text \<open>
  \<^verbatim>\<open>new Map()\<close>: keys in insertion order. \<^verbatim>\<open>set\<close> on a key that is present
  overwrites the value where the key stands; on a new key it appends. \<^verbatim>\<open>delete\<close>
  removes the key. \<^verbatim>\<open>Array.from(m.values())\<close> lists the values in key order.
\<close>

type_synonym ('k, 'v) js_map = "('k \<times> 'v) list"

fun map_set :: "('k, 'v) js_map \<Rightarrow> 'k \<Rightarrow> 'v \<Rightarrow> ('k, 'v) js_map" where
  "map_set [] k v = [(k, v)]"
| "map_set ((k', v') # m) k v =
     (if k' = k then (k, v) # m else (k', v') # map_set m k v)"

definition map_delete :: "('k, 'v) js_map \<Rightarrow> 'k \<Rightarrow> ('k, 'v) js_map" where
  "map_delete m k = filter (\<lambda>p. fst p \<noteq> k) m"

definition map_keys :: "('k, 'v) js_map \<Rightarrow> 'k list" where
  "map_keys m = map fst m"

definition map_values :: "('k, 'v) js_map \<Rightarrow> 'v list" where
  "map_values m = map snd m"

definition map_get :: "('k, 'v) js_map \<Rightarrow> 'k \<Rightarrow> 'v option" where
  "map_get m k = map_of m k"

section \<open>Sockets, the message model and the server state\<close>

text \<open>
  \<^verbatim>\<open>socket.user\<close> is the decoded token (\<^verbatim>\<open>id\<close>, \<^verbatim>\<open>username\<close>);
  \<^verbatim>\<open>socket.id\<close> is the connection's own id.
\<close>

record jwt_user =
  user_id :: string
  username :: string

record socket =
  socket_id :: string
  user :: jwt_user

text \<open>
  \<^verbatim>\<open>new Message({ sender, content, timestamp })\<close>: \<^verbatim>\<open>content\<close> is
  \<^verbatim>\<open>data.content\<close>, which is \<^verbatim>\<open>undefined\<close> when the payload has no such field.
\<close>

record message_doc =
  sender :: string
  content :: "string option"
  timestamp :: nat

text \<open>
  A message as it travels to the clients: the document read back with
  \<^verbatim>\<open>populate('sender', 'username')\<close>, so \<^verbatim>\<open>sender\<close> is the object
  \<^verbatim>\<open>{ _id, username }\<close>, or \<^verbatim>\<open>null\<close> when the user document is gone.
\<close>

record message =
  msg_id :: "string option"
  msg_sender :: "obj option"
  msg_content :: "string option"
  msg_timestamp :: nat

text \<open>
  The server's state: the \<^verbatim>\<open>activeUsers\<close> Map, the sockets that socket.io holds as
  connected (the recipients of \<^verbatim>\<open>io.emit\<close>), and the message collection behind
  the \<^verbatim>\<open>Message\<close> model.
\<close>

record 'db server =
  activeUsers :: "(string, obj) js_map"
  connected :: "socket list"
  db :: 'db

text \<open>
  What a handler does to the outside: \<^verbatim>\<open>io.emit\<close> (\<open>ToAll\<close>),
  \<^verbatim>\<open>socket.emit\<close> (\<open>ToSocket\<close>), \<^verbatim>\<open>socket.broadcast.emit\<close> (\<open>ToOthers\<close>), the
  two calls on the \<^verbatim>\<open>Message\<close> model, and the refusal of a handshake.
\<close>

datatype target = ToAll | ToSocket string | ToOthers string

datatype payload = Users "obj list" | Msg "message option" | Object obj

datatype effect =
    Emit target string payload
  | Save message_doc
  | FindById string
  | ConnectError string

text \<open>The socket ids an emit reaches, given the connected sockets.\<close>

fun recipients :: "target \<Rightarrow> socket list \<Rightarrow> string list" where
  "recipients ToAll cs = map socket_id cs"
| "recipients (ToSocket i) cs = [i]"
| "recipients (ToOthers i) cs = filter (\<lambda>j. j \<noteq> i) (map socket_id cs)"

fun deliveries :: "effect list \<Rightarrow> socket list \<Rightarrow> (string \<times> string \<times> payload) list" where
  "deliveries [] cs = []"
| "deliveries (Emit t ev p # es) cs = map (\<lambda>i. (i, ev, p)) (recipients t cs) @ deliveries es cs"
| "deliveries (e # es) cs = deliveries es cs"

section \<open>The connection handler (both revisions of the server)\<close>

text \<open>
  part_000, lines 146-150 and part_001, lines 87-90: the value stored under
  \<^verbatim>\<open>socket.user.id\<close>.
\<close>

definition entry_000 :: "socket \<Rightarrow> obj" where
  "entry_000 s =
     [(''id'', user_id (user s)), (''username'', username (user s)), (''socketId'', socket_id s)]"

definition entry_001 :: "socket \<Rightarrow> obj" where
  "entry_001 s = [(''username'', username (user s)), (''socketId'', socket_id s)]"

text \<open>
  part_000, lines 143-159: \<^verbatim>\<open>activeUsers.set\<close>, then \<^verbatim>\<open>socket.emit\<close> and
  \<^verbatim>\<open>socket.broadcast.emit\<close> of \<^verbatim>\<open>Array.from(activeUsers.values())\<close>.
\<close>

definition connection_000 :: "socket \<Rightarrow> 'db server \<Rightarrow> 'db server \<times> effect list" where
  "connection_000 s st =
     (let au = map_set (activeUsers st) (user_id (user s)) (entry_000 s)
      in (st\<lparr>activeUsers := au\<rparr>,
          [Emit (ToSocket (socket_id s)) ''activeUsers'' (Users (map_values au)),
           Emit (ToOthers (socket_id s)) ''activeUsers'' (Users (map_values au))]))"

text \<open>
  part_001, lines 84-96: \<^verbatim>\<open>activeUsers.set\<close>, then one \<^verbatim>\<open>io.emit\<close>.
\<close>

definition connection_001 :: "socket \<Rightarrow> 'db server \<Rightarrow> 'db server \<times> effect list" where
  "connection_001 s st =
     (let au = map_set (activeUsers st) (user_id (user s)) (entry_001 s)
      in (st\<lparr>activeUsers := au\<rparr>,
          [Emit ToAll ''activeUsers'' (Users (map_values au))]))"

text \<open>
  The \<^verbatim>\<open>disconnect\<close> handler, the same in both revisions:
  \<^verbatim>\<open>activeUsers.delete(socket.user.id)\<close>, then \<^verbatim>\<open>io.emit\<close> of the roster.
\<close>

definition disconnect :: "socket \<Rightarrow> 'db server \<Rightarrow> 'db server \<times> effect list" where
  "disconnect s st =
     (let au = map_delete (activeUsers st) (user_id (user s))
      in (st\<lparr>activeUsers := au\<rparr>,
          [Emit ToAll ''activeUsers'' (Users (map_values au))]))"

text \<open>The typing handlers, the same in both revisions.\<close>

definition typing :: "socket \<Rightarrow> 'db server \<Rightarrow> 'db server \<times> effect list" where
  "typing s st =
     (st, [Emit (ToOthers (socket_id s)) ''userTyping'' (Object [(''username'', username (user s))])])"

definition stopTyping :: "socket \<Rightarrow> 'db server \<Rightarrow> 'db server \<times> effect list" where
  "stopTyping s st =
     (st, [Emit (ToOthers (socket_id s)) ''userStopTyping''
             (Object [(''username'', username (user s))])])"

section \<open>Admission: the handshake middleware\<close>

text \<open>
  A handshake carries the id of the socket being opened and
  \<^verbatim>\<open>socket.handshake.auth.token\<close> (\<open>None\<close> when the client sent none).
\<close>

record handshake =
  hs_socket_id :: string
  token :: "string option"

text \<open>
  part_000, lines 128-141. \<^verbatim>\<open>jwt.verify(token, process.env.JWT_SECRET)\<close> belongs to
  the jsonwebtoken library and is a parameter: \<open>None\<close> when it throws (malformed token,
  bad signature, expired), the decoded payload otherwise. \<open>Inl\<close> is the error handed to
  \<^verbatim>\<open>next\<close>, \<open>Inr\<close> the value stored in \<^verbatim>\<open>socket.user\<close>.
\<close>

definition io_use_000 :: "(string \<Rightarrow> jwt_user option) \<Rightarrow> handshake \<Rightarrow> string + jwt_user" where
  "io_use_000 jwt_verify hs =
     (if \<not> truthy (token hs) then Inl ''Authentication error: No token provided''
      else (case token hs of
              None \<Rightarrow> Inl ''Authentication error: No token provided''
            | Some t \<Rightarrow>
                (case jwt_verify t of
                   None \<Rightarrow> Inl ''Authentication error: Invalid token''
                 | Some decoded \<Rightarrow> Inr decoded)))"

text \<open>
  socket.io runs the middleware of \<^verbatim>\<open>io.use\<close> before it fires
  \<^verbatim>\<open>connection\<close>: when the middleware passes an error to \<^verbatim>\<open>next\<close>, the client
  gets a connect error, the socket never joins the connected ones and the
  \<^verbatim>\<open>connection\<close> handler does not run. Otherwise the socket is connected and the
  handler runs on it.
\<close>

definition admit ::
  "(handshake \<Rightarrow> string + jwt_user) \<Rightarrow> (socket \<Rightarrow> 'db server \<Rightarrow> 'db server \<times> effect list) \<Rightarrow>
   handshake \<Rightarrow> 'db server \<Rightarrow> 'db server \<times> effect list" where
  "admit middleware handler hs st =
     (case middleware hs of
        Inl err \<Rightarrow> (st, [ConnectError err])
      | Inr u \<Rightarrow>
          (let s = \<lparr>socket_id = hs_socket_id hs, user = u\<rparr>
           in handler s (st\<lparr>connected := connected st @ [s]\<rparr>)))"

text \<open>
  part_000 installs its own middleware; part_001 installs \<^verbatim>\<open>verifySocketToken\<close> of
  \<^verbatim>\<open>./middleware/auth\<close>, which is a parameter here.
\<close>

definition attempt_000 ::
  "(string \<Rightarrow> jwt_user option) \<Rightarrow> handshake \<Rightarrow> 'db server \<Rightarrow> 'db server \<times> effect list" where
  "attempt_000 jwt_verify = admit (io_use_000 jwt_verify) connection_000"

definition attempt_001 ::
  "(handshake \<Rightarrow> string + jwt_user) \<Rightarrow> handshake \<Rightarrow> 'db server \<Rightarrow> 'db server \<times> effect list" where
  "attempt_001 verifySocketToken = admit verifySocketToken connection_001"

section \<open>The sendMessage handler\<close>

text \<open>
  The \<^verbatim>\<open>Message\<close> model (\<^verbatim>\<open>./models/Message\<close>) is a parameter of the handler:
  \<open>save\<close> stands for \<^verbatim>\<open>new Message(doc)\<close> followed by \<^verbatim>\<open>message.save()\<close>
  and returns the \<^verbatim>\<open>_id\<close> of the stored document, \<open>findById\<close> for
  \<^verbatim>\<open>Message.findById(id).populate('sender', 'username')\<close>. \<open>Inl\<close> is a thrown
  error (a rejected promise).
\<close>

type_synonym 'db save_fn = "message_doc \<Rightarrow> 'db \<Rightarrow> string + (string \<times> 'db)"
type_synonym 'db find_fn = "string \<Rightarrow> 'db \<Rightarrow> string + message option"

text \<open>
  The body of the \<^verbatim>\<open>try\<close> block (part_000, lines 164-175; part_001, lines 101-112).
  \<open>Inl\<close> is an exception leaving the block, together with the state and the effects
  reached so far. \<^verbatim>\<open>data.content\<close> throws a TypeError when the client sent no
  payload (\<open>data = None\<close>). \<open>now\<close> is \<^verbatim>\<open>new Date()\<close>.
\<close>

definition sendMessage_try ::
  "'db save_fn \<Rightarrow> 'db find_fn \<Rightarrow> nat \<Rightarrow> socket \<Rightarrow> obj option \<Rightarrow> 'db server \<Rightarrow>
   (string \<times> 'db server \<times> effect list) + ('db server \<times> effect list)" where
  "sendMessage_try save findById now s data st =
     (case data of
        None \<Rightarrow> Inl (''TypeError'', st, [])
      | Some d \<Rightarrow>
          (let doc = \<lparr>sender = user_id (user s), content = field d ''content'', timestamp = now\<rparr>
           in case save doc (db st) of
                Inl e \<Rightarrow> Inl (e, st, [Save doc])
              | Inr (i, db') \<Rightarrow>
                  (case findById i db' of
                     Inl e \<Rightarrow> Inl (e, st\<lparr>db := db'\<rparr>, [Save doc, FindById i])
                   | Inr populatedMessage \<Rightarrow>
                       Inr (st\<lparr>db := db'\<rparr>,
                            [Save doc, FindById i,
                             Emit ToAll ''newMessage'' (Msg populatedMessage)]))))"

text \<open>The \<^verbatim>\<open>catch\<close> block: \<^verbatim>\<open>socket.emit('error', { message: ... })\<close>.\<close>

definition error_event :: "socket \<Rightarrow> effect" where
  "error_event s =
     Emit (ToSocket (socket_id s)) ''error'' (Object [(''message'', ''Failed to send message'')])"

definition sendMessage ::
  "'db save_fn \<Rightarrow> 'db find_fn \<Rightarrow> nat \<Rightarrow> socket \<Rightarrow> obj option \<Rightarrow> 'db server \<Rightarrow>
   'db server \<times> effect list" where
  "sendMessage save findById now s data st =
     (case sendMessage_try save findById now s data st of
        Inl (e, st', es) \<Rightarrow> (st', es @ [error_event s])
      | Inr r \<Rightarrow> r)"

section \<open>The server as a machine over events\<close>

text \<open>
  \<open>Connection s\<close> is an admitted socket; \<open>Disconnect s\<close> finds the socket already taken
  out of the connected ones when the handler runs.
\<close>

datatype event =
    Connection socket
  | SendMessage socket nat "obj option"
  | Typing socket
  | StopTyping socket
  | Disconnect socket

definition on_event ::
  "(socket \<Rightarrow> 'db server \<Rightarrow> 'db server \<times> effect list) \<Rightarrow> 'db save_fn \<Rightarrow> 'db find_fn \<Rightarrow>
   event \<Rightarrow> 'db server \<Rightarrow> 'db server \<times> effect list" where
  "on_event handler save findById ev st =
     (case ev of
        Connection s \<Rightarrow> handler s (st\<lparr>connected := connected st @ [s]\<rparr>)
      | SendMessage s now data \<Rightarrow> sendMessage save findById now s data st
      | Typing s \<Rightarrow> typing s st
      | StopTyping s \<Rightarrow> stopTyping s st
      | Disconnect s \<Rightarrow>
          disconnect s (st\<lparr>connected := filter (\<lambda>c. socket_id c \<noteq> socket_id s) (connected st)\<rparr>))"

fun run ::
  "(event \<Rightarrow> 'db server \<Rightarrow> 'db server \<times> effect list) \<Rightarrow> event list \<Rightarrow> 'db server \<Rightarrow>
   'db server \<times> effect list" where
  "run step [] st = (st, [])"
| "run step (ev # evs) st =
     (case step ev st of
        (st1, es1) \<Rightarrow> (case run step evs st1 of (st2, es2) \<Rightarrow> (st2, es1 @ es2)))"

definition server_000 :: "'db save_fn \<Rightarrow> 'db find_fn \<Rightarrow> event \<Rightarrow> 'db server \<Rightarrow> 'db server \<times> effect list" where
  "server_000 = on_event connection_000"

definition server_001 :: "'db save_fn \<Rightarrow> 'db find_fn \<Rightarrow> event \<Rightarrow> 'db server \<Rightarrow> 'db server \<times> effect list" where
  "server_001 = on_event connection_001"

definition init :: "'db \<Rightarrow> 'db server" where
  "init d = \<lparr>activeUsers = [], connected = [], db = d\<rparr>"

text \<open>
  The registry operations an event performs, and the order the Map's own rule gives:
  \<open>joined_at\<close> is the position in the history of the \<^verbatim>\<open>set\<close> that inserted the
  present entry of a key (the first \<^verbatim>\<open>set\<close> since the key's last \<^verbatim>\<open>delete\<close>).
  The history is read newest event first.
\<close>

fun joined_at :: "event list \<Rightarrow> string \<Rightarrow> nat option" where
  "joined_at [] k = None"
| "joined_at (Connection s # older) k =
     (if user_id (user s) = k
      then (case joined_at older k of None \<Rightarrow> Some (length older) | Some t \<Rightarrow> Some t)
      else joined_at older k)"
| "joined_at (Disconnect s # older) k =
     (if user_id (user s) = k then None else joined_at older k)"
| "joined_at (ev # older) k = joined_at older k"

section \<open>A message store for running the handler\<close>

text \<open>
  Modelled from the spec: the \<^verbatim>\<open>Message\<close> model and its schema are not among the
  sources. Section 6 of the specification gives the store as
  \<^verbatim>\<open>create(senderId, content, timestamp) -> id\<close> and \<^verbatim>\<open>readBack(id)\<close>, the message
  with its sender resolved to \<^verbatim>\<open>{ _id, username }\<close>. The schema's validators are a
  parameter of \<open>mem_save\<close>; \<open>spec_validators\<close> is the content rule of sections 3 and 4.4
  (not empty, not only whitespace, at most 1000 code units).
\<close>

record mem_db =
  messages :: "message_doc list"
  users :: "(string \<times> string) list"

definition whitespace :: "char \<Rightarrow> bool" where
  "whitespace c = (c \<in> set [CHR '' '', CHR 0x09, CHR 0x0A, CHR 0x0D])"

definition spec_validators :: "string option \<Rightarrow> bool" where
  "spec_validators c =
     (case c of None \<Rightarrow> False
      | Some t \<Rightarrow> \<not> list_all whitespace t \<and> length t \<le> 1000)"

text \<open>
  The n-th document created gets the id made of n letters \<open>m\<close>, so an id names one
  document for good.
\<close>

definition mem_save :: "(string option \<Rightarrow> bool) \<Rightarrow> mem_db save_fn" where
  "mem_save validators doc d =
     (if validators (content doc)
      then Inr (replicate (Suc (length (messages d))) CHR ''m'', d\<lparr>messages := messages d @ [doc]\<rparr>)
      else Inl ''ValidationError'')"

definition populate :: "mem_db \<Rightarrow> string \<Rightarrow> message_doc \<Rightarrow> message" where
  "populate d i doc =
     \<lparr>msg_id = Some i,
      msg_sender =
        (case map_of (users d) (sender doc) of
           None \<Rightarrow> None
         | Some name \<Rightarrow> Some [(''_id'', sender doc), (''username'', name)]),
      msg_content = content doc,
      msg_timestamp = timestamp doc\<rparr>"

definition mem_findById :: "mem_db find_fn" where
  "mem_findById i d =
     Inr (if i = replicate (length i) CHR ''m'' \<and> 0 < length i \<and> length i \<le> length (messages d)
          then Some (populate d i (messages d ! (length i - 1)))
          else None)"

section \<open>The client's newMessage listener\<close>

text \<open>
  The listener with the duplicate check (the later revision of Chat.jsx, lines 358-384 of
  the listing under utils/socket.js), as a function from the delivered message and the
  message list to the new list. A \<^verbatim>\<open>null\<close> message makes the listener throw at its
  first \<^verbatim>\<open>message.content\<close>, before any update, so the list stays as it is.
\<close>

definition onNewMessage :: "message option \<Rightarrow> message list \<Rightarrow> message list" where
  "onNewMessage message prev =
     (case message of
        None \<Rightarrow> prev
      | Some m \<Rightarrow>
          if \<not> truthy (msg_id m) then prev
          else if \<not> truthy (msg_content m) then prev
          else if list_ex (\<lambda>x. msg_id x = msg_id m) prev then prev
          else prev @ [m])"

section \<open>Histories, invariants and a small scenario\<close>

text \<open>The server's state after a history of events, starting with nobody connected.\<close>

definition state_after ::
  "(event \<Rightarrow> 'db server \<Rightarrow> 'db server \<times> effect list) \<Rightarrow> 'db \<Rightarrow> event list \<Rightarrow> 'db server" where
  "state_after step d evs = fst (run step evs (init d))"

text \<open>In part_000 every entry carries, as its \<^verbatim>\<open>id\<close> field, the key it is stored under.\<close>

definition keyed_by_id :: "(string, obj) js_map \<Rightarrow> bool" where
  "keyed_by_id m = list_all (\<lambda>p. field (snd p) ''id'' = Some (fst p)) m"

text \<open>
  Two users and three sockets: alice connects, bob connects, alice connects again from a
  second socket.
\<close>

definition alice_1 :: socket where
  "alice_1 = \<lparr>socket_id = ''s1'', user = \<lparr>user_id = ''u1'', username = ''alice''\<rparr>\<rparr>"

definition bob_2 :: socket where
  "bob_2 = \<lparr>socket_id = ''s2'', user = \<lparr>user_id = ''u2'', username = ''bob''\<rparr>\<rparr>"

definition alice_3 :: socket where
  "alice_3 = \<lparr>socket_id = ''s3'', user = \<lparr>user_id = ''u1'', username = ''alice''\<rparr>\<rparr>"

definition db0 :: mem_db where
  "db0 = \<lparr>messages = [], users = [(''u1'', ''alice''), (''u2'', ''bob'')]\<rparr>"

text \<open>A stand-in for \<^verbatim>\<open>jwt.verify\<close> that accepts one token, alice's.\<close>

definition verify_demo :: "string \<Rightarrow> jwt_user option" where
  "verify_demo t =
     (if t = ''alice-token'' then Some \<lparr>user_id = ''u1'', username = ''alice''\<rparr> else None)"

text \<open>alice and bob present, as part_000 stores them.\<close>

definition two_present :: "mem_db server" where
  "two_present = \<lparr>activeUsers = [(''u1'', entry_000 alice_1), (''u2'', entry_000 bob_2)],
                   connected = [alice_1, bob_2], db = db0\<rparr>"

text \<open>
  The order of joining: both keys are present and the first joined earlier.
\<close>

definition joined_before :: "event list \<Rightarrow> string \<Rightarrow> string \<Rightarrow> bool" where
  "joined_before h a b =
     (case joined_at h a of
        None \<Rightarrow> False
      | Some x \<Rightarrow> (case joined_at h b of None \<Rightarrow> False | Some y \<Rightarrow> x < y))"

text \<open>What an event does to the list of the registry's keys.\<close>

definition keys_step :: "event \<Rightarrow> string list \<Rightarrow> string list" where
  "keys_step ev ks =
     (case ev of
        Connection s \<Rightarrow> (if user_id (user s) \<in> set ks then ks else ks @ [user_id (user s)])
      | Disconnect s \<Rightarrow> filter (\<lambda>x. x \<noteq> user_id (user s)) ks
      | _ \<Rightarrow> ks)"

text \<open>bob's message \<^verbatim>\<open>hi\<close> as the store reads it back.\<close>

definition hello :: message where
  "hello = \<lparr>msg_id = Some ''m'', msg_sender = Some [(''_id'', ''u2''), (''username'', ''bob'')],
            msg_content = Some ''hi'', msg_timestamp = 7\<rparr>"

text \<open>
  Payloads and documents of the scenario: bob sends \<^verbatim>\<open>hi\<close>, once plainly and once
  with a \<^verbatim>\<open>sender\<close> field naming alice; bob sends an empty content, three blanks
  and 1001 letters; a store whose
  \<^verbatim>\<open>save\<close> always throws, and one whose read-back always throws.
\<close>

definition hi :: obj where
  "hi = [(''content'', ''hi'')]"

definition hi_doc :: message_doc where
  "hi_doc = \<lparr>sender = ''u2'', content = Some ''hi'', timestamp = 7\<rparr>"

definition store_down :: "mem_db save_fn" where
  "store_down doc d = Inl ''MongoNetworkError''"

definition read_down :: "mem_db find_fn" where
  "read_down i d = Inl ''MongoNetworkError''"

definition hi_spoofed :: obj where
  "hi_spoofed = [(''sender'', ''u1''), (''content'', ''hi'')]"

definition blank :: obj where
  "blank = [(''content'', '''')]"

definition blank_doc :: message_doc where
  "blank_doc = \<lparr>sender = ''u2'', content = Some '''', timestamp = 7\<rparr>"

definition spaces :: obj where
  "spaces = [(''content'', ''   '')]"

definition too_long :: obj where
  "too_long = [(''content'', replicate 1001 CHR ''a'')]"

section \<open>The Map operations\<close>

lemma map_set_keys_present:
  "k \<in> set (map fst m) \<Longrightarrow> map fst (map_set m k v) = map fst m"
  by (induction m) (auto simp: rev_image_eqI)

lemma map_set_keys_absent:
  "k \<notin> set (map fst m) \<Longrightarrow> map fst (map_set m k v) = map fst m @ [k]"
  by (induction m) auto

lemma map_set_keys:
  "map fst (map_set m k v) = (if k \<in> set (map fst m) then map fst m else map fst m @ [k])"
  by (simp add: map_set_keys_present map_set_keys_absent)

lemma map_of_map_set:
  "map_of (map_set m k v) k' = (if k' = k then Some v else map_of m k')"
  by (induction m) auto

lemma distinct_map_set:
  "distinct (map fst m) \<Longrightarrow> distinct (map fst (map_set m k v))"
  by (simp add: map_set_keys)

lemma map_delete_keys:
  "map fst (map_delete m k) = filter (\<lambda>x. x \<noteq> k) (map fst m)"
  by (simp add: map_delete_def filter_map comp_def)

lemma distinct_map_delete:
  "distinct (map fst m) \<Longrightarrow> distinct (map fst (map_delete m k))"
  by (simp add: map_delete_keys)

lemma map_set_in_place:
  "k \<in> set (map fst m) \<Longrightarrow>
   \<exists>i<length m. fst (m ! i) = k \<and> (\<forall>j<i. fst (m ! j) \<noteq> k) \<and> map_set m k v = m[i := (k, v)]"
proof (induction m)
  case Nil
  then show ?case by simp
next
  case (Cons p m)
  show ?case
  proof (cases "fst p = k")
    case True
    then have "map_set (p # m) k v = (p # m)[0 := (k, v)]"
      by (cases p) simp
    with True show ?thesis by (intro exI[of _ 0]) simp
  next
    case False
    with Cons.prems have "k \<in> set (map fst m)" by auto
    from Cons.IH[OF this] obtain i where i: "i < length m" "fst (m ! i) = k"
      "\<forall>j<i. fst (m ! j) \<noteq> k" "map_set m k v = m[i := (k, v)]" by blast
    from False i have "map_set (p # m) k v = (p # m)[Suc i := (k, v)]"
      by (cases p) simp
    moreover from False i(3) have "\<forall>j<Suc i. fst ((p # m) ! j) \<noteq> k"
      by (auto simp: less_Suc_eq_0_disj)
    ultimately show ?thesis using i(1,2)
      by (intro exI[of _ "Suc i"]) simp
  qed
qed

section \<open>Steps and histories\<close>


lemma run_append:
  "run step (xs @ ys) st =
     (case run step xs st of (st1, es1) \<Rightarrow>
        (case run step ys st1 of (st2, es2) \<Rightarrow> (st2, es1 @ es2)))"
  by (induction xs arbitrary: st) (auto split: prod.splits)

lemma state_after_Nil: "state_after step d [] = init d"
  by (simp add: state_after_def)

lemma state_after_snoc:
  "state_after step d (evs @ [ev]) = fst (step ev (state_after step d evs))"
  by (simp add: state_after_def run_append split: prod.splits)

lemma sendMessage_activeUsers:
  "activeUsers (fst (sendMessage save findById now s data st)) = activeUsers st"
  by (auto simp: sendMessage_def sendMessage_try_def Let_def split: option.splits sum.splits prod.splits)

lemma sendMessage_connected:
  "connected (fst (sendMessage save findById now s data st)) = connected st"
  by (auto simp: sendMessage_def sendMessage_try_def Let_def split: option.splits sum.splits prod.splits)

lemma server_000_registry:
  "activeUsers (fst (server_000 save findById ev st)) =
     (case ev of
        Connection s \<Rightarrow> map_set (activeUsers st) (user_id (user s)) (entry_000 s)
      | Disconnect s \<Rightarrow> map_delete (activeUsers st) (user_id (user s))
      | _ \<Rightarrow> activeUsers st)"
  by (cases ev)
     (simp_all add: server_000_def on_event_def connection_000_def disconnect_def typing_def
        stopTyping_def sendMessage_activeUsers Let_def)

lemma server_001_registry:
  "activeUsers (fst (server_001 save findById ev st)) =
     (case ev of
        Connection s \<Rightarrow> map_set (activeUsers st) (user_id (user s)) (entry_001 s)
      | Disconnect s \<Rightarrow> map_delete (activeUsers st) (user_id (user s))
      | _ \<Rightarrow> activeUsers st)"
  by (cases ev)
     (simp_all add: server_001_def on_event_def connection_001_def disconnect_def typing_def
        stopTyping_def sendMessage_activeUsers Let_def)

lemma server_000_distinct:
  "distinct (map fst (activeUsers st)) \<Longrightarrow>
   distinct (map fst (activeUsers (fst (server_000 save findById ev st))))"
  by (cases ev) (simp_all add: server_000_registry distinct_map_set distinct_map_delete)

lemma server_001_distinct:
  "distinct (map fst (activeUsers st)) \<Longrightarrow>
   distinct (map fst (activeUsers (fst (server_001 save findById ev st))))"
  by (cases ev) (simp_all add: server_001_registry distinct_map_set distinct_map_delete)

lemma state_after_000_distinct:
  "distinct (map fst (activeUsers (state_after (server_000 save findById) d evs)))"
proof (induction evs rule: rev_induct)
  case Nil
  show ?case by (simp add: state_after_Nil init_def)
next
  case (snoc ev evs)
  then show ?case by (simp only: state_after_snoc server_000_distinct)
qed

lemma state_after_001_distinct:
  "distinct (map fst (activeUsers (state_after (server_001 save findById) d evs)))"
proof (induction evs rule: rev_induct)
  case Nil
  show ?case by (simp add: state_after_Nil init_def)
next
  case (snoc ev evs)
  then show ?case by (simp only: state_after_snoc server_001_distinct)
qed


lemma keyed_map_set:
  "keyed_by_id m \<Longrightarrow> field v ''id'' = Some k \<Longrightarrow> keyed_by_id (map_set m k v)"
  by (induction m) (auto simp: keyed_by_id_def)

lemma keyed_map_delete: "keyed_by_id m \<Longrightarrow> keyed_by_id (map_delete m k)"
  by (simp add: keyed_by_id_def map_delete_def list_all_iff)

lemma entry_000_id: "field (entry_000 s) ''id'' = Some (user_id (user s))"
  by (simp add: entry_000_def field_def)

lemma state_after_000_keyed:
  "keyed_by_id (activeUsers (state_after (server_000 save findById) d evs))"
proof (induction evs rule: rev_induct)
  case Nil
  show ?case by (simp add: state_after_Nil init_def keyed_by_id_def)
next
  case (snoc ev evs)
  then show ?case
    by (cases ev)
       (simp_all add: state_after_snoc server_000_registry keyed_map_set keyed_map_delete entry_000_id)
qed

lemma count_key_distinct:
  "distinct (map fst m) \<Longrightarrow> k \<in> set (map fst m) \<Longrightarrow> length (filter (\<lambda>x. x = k) (map fst m)) = 1"
  by (induction m) (auto simp: filter_empty_conv image_iff)

lemma count_id_keyed:
  "keyed_by_id m \<Longrightarrow>
   length (filter (\<lambda>e. field e ''id'' = Some k) (map snd m)) = length (filter (\<lambda>x. x = k) (map fst m))"
  by (induction m) (auto simp: keyed_by_id_def)

lemma map_set_count:
  "distinct (map fst m) \<Longrightarrow> length (filter (\<lambda>x. x = k) (map fst (map_set m k v))) = 1"
  by (rule count_key_distinct) (simp_all add: map_set_keys)

lemma zip_keys_values: "zip (map fst m) (map snd m) = m"
  by (induction m) auto

lemma map_set_length_present:
  "k \<in> set (map fst m) \<Longrightarrow> length (map_set m k v) = length m"
  using map_set_keys_present[of k m v] by (metis length_map)

section \<open>The presence registry\<close>

lemma unique_position:
  assumes "distinct (map fst m)" and "map_of m k = Some v"
  shows "\<exists>i<length m. fst (m ! i) = k \<and> snd (m ! i) = v \<and> (\<forall>j<length m. fst (m ! j) = k \<longrightarrow> j = i)"
proof -
  from assms(2) have "(k, v) \<in> set m" by (rule map_of_SomeD)
  then obtain i where i: "i < length m" "m ! i = (k, v)"
    unfolding in_set_conv_nth by blast
  have u: "j = i" if "j < length m" "fst (m ! j) = k" for j
  proof -
    from that i have e: "map fst m ! j = map fst m ! i" by simp
    have lj: "j < length (map fst m)" and li: "i < length (map fst m)"
      using that(1) i(1) by simp_all
    show ?thesis by (rule iffD1[OF nth_eq_iff_index_eq[OF assms(1) lj li] e])
  qed
  have "fst (m ! i) = k" "snd (m ! i) = v" using i(2) by simp_all
  with i(1) u show ?thesis by blast
qed

lemma roster_position:
  assumes "distinct (map fst m)" and "map_of m k = Some v"
  shows "\<exists>i<length (map_values m). map_keys m ! i = k \<and> map_values m ! i = v
           \<and> (\<forall>j<length (map_values m). map_keys m ! j = k \<longrightarrow> j = i)"
proof -
  from unique_position[OF assms] obtain i where i: "i < length m" "fst (m ! i) = k" "snd (m ! i) = v"
    "\<forall>j<length m. fst (m ! j) = k \<longrightarrow> j = i" by blast
  have "\<forall>j<length (map_values m). map_keys m ! j = k \<longrightarrow> j = i"
    using i(4) by (simp add: map_keys_def map_values_def)
  moreover have "i < length (map_values m)" "map_keys m ! i = k" "map_values m ! i = v"
    using i(1,2,3) by (simp_all add: map_keys_def map_values_def)
  ultimately show ?thesis by blast
qed

text \<open>
  Claim C1. After every history of events the registry holds each identity id at most
  once, in both revisions of the server. A connection of an identity stores that socket's
  entry under the id (the last connection wins); when the id was present already, the
  number of entries stays the same, so the entry is replaced and no second one is added.
  Every roster emitted by that connection is the list of the registry's values, one
  record per key: exactly one position of the roster belongs to the id, and the record
  there is the one built from the connecting socket. In part_000, where the records carry
  an \<^verbatim>\<open>id\<close> field, exactly one record has that id.
\<close>

theorem registry_one_entry_per_id:
  "(let st = state_after (server_000 save findById) d evs;
        st' = fst (server_000 save findById (Connection s) st);
        uid = user_id (user s)
    in distinct (map_keys (activeUsers st))
     \<and> distinct (map_keys (activeUsers st'))
     \<and> length (filter (\<lambda>k. k = uid) (map_keys (activeUsers st'))) = 1
     \<and> map_get (activeUsers st') uid = Some (entry_000 s)
     \<and> (uid \<in> set (map_keys (activeUsers st)) \<longrightarrow>
          length (activeUsers st') = length (activeUsers st))
     \<and> (\<forall>t r. Emit t ''activeUsers'' (Users r) \<in> set (snd (server_000 save findById (Connection s) st)) \<longrightarrow>
          zip (map_keys (activeUsers st')) r = activeUsers st'
        \<and> length (filter (\<lambda>e. field e ''id'' = Some uid) r) = 1
        \<and> r = map_values (activeUsers st')
        \<and> (\<exists>i<length r.
              map_keys (activeUsers st') ! i = uid
            \<and> r ! i = [(''id'', uid), (''username'', username (user s)), (''socketId'', socket_id s)]
            \<and> (\<forall>j<length r. map_keys (activeUsers st') ! j = uid \<longrightarrow> j = i))))
 \<and> (let st = state_after (server_001 save findById) d evs;
        st' = fst (server_001 save findById (Connection s) st);
        uid = user_id (user s)
    in distinct (map_keys (activeUsers st))
     \<and> distinct (map_keys (activeUsers st'))
     \<and> length (filter (\<lambda>k. k = uid) (map_keys (activeUsers st'))) = 1
     \<and> map_get (activeUsers st') uid = Some (entry_001 s)
     \<and> (uid \<in> set (map_keys (activeUsers st)) \<longrightarrow>
          length (activeUsers st') = length (activeUsers st))
     \<and> (\<forall>t r. Emit t ''activeUsers'' (Users r) \<in> set (snd (server_001 save findById (Connection s) st)) \<longrightarrow>
          zip (map_keys (activeUsers st')) r = activeUsers st'
        \<and> r = map_values (activeUsers st')
        \<and> (\<exists>i<length r.
              map_keys (activeUsers st') ! i = uid
            \<and> r ! i = [(''username'', username (user s)), (''socketId'', socket_id s)]
            \<and> (\<forall>j<length r. map_keys (activeUsers st') ! j = uid \<longrightarrow> j = i))))"
proof -
  let ?st0 = "state_after (server_000 save findById) d evs"
  let ?st1 = "state_after (server_001 save findById) d evs"
  let ?st0' = "fst (server_000 save findById (Connection s) ?st0)"
  let ?st1' = "fst (server_001 save findById (Connection s) ?st1)"
  let ?uid = "user_id (user s)"
  have d0: "distinct (map fst (activeUsers ?st0))" by (rule state_after_000_distinct)
  have d1: "distinct (map fst (activeUsers ?st1))" by (rule state_after_001_distinct)
  have r0: "activeUsers ?st0' = map_set (activeUsers ?st0) ?uid (entry_000 s)"
    by (simp add: server_000_registry)
  have r1: "activeUsers ?st1' = map_set (activeUsers ?st1) ?uid (entry_001 s)"
    by (simp add: server_001_registry)
  have e0: "snd (server_000 save findById (Connection s) ?st0) =
              [Emit (ToSocket (socket_id s)) ''activeUsers'' (Users (map snd (activeUsers ?st0'))),
               Emit (ToOthers (socket_id s)) ''activeUsers'' (Users (map snd (activeUsers ?st0')))]"
    by (simp add: server_000_def on_event_def connection_000_def Let_def map_values_def)
  have e1: "snd (server_001 save findById (Connection s) ?st1) =
              [Emit ToAll ''activeUsers'' (Users (map snd (activeUsers ?st1')))]"
    by (simp add: server_001_def on_event_def connection_001_def Let_def map_values_def)
  have k0: "keyed_by_id (activeUsers ?st0')"
    unfolding r0 by (simp add: keyed_map_set state_after_000_keyed entry_000_id)
  have a1: "distinct (map_keys (activeUsers ?st0))" "distinct (map_keys (activeUsers ?st1))"
    using d0 d1 by (simp_all only: map_keys_def)
  have a2: "distinct (map_keys (activeUsers ?st0'))" "distinct (map_keys (activeUsers ?st1'))"
    unfolding r0 r1 map_keys_def by (simp_all only: distinct_map_set[OF d0] distinct_map_set[OF d1])
  have a3: "length (filter (\<lambda>k. k = ?uid) (map_keys (activeUsers ?st0'))) = 1"
           "length (filter (\<lambda>k. k = ?uid) (map_keys (activeUsers ?st1'))) = 1"
    unfolding r0 r1 map_keys_def by (simp_all only: map_set_count[OF d0] map_set_count[OF d1])
  have a4: "map_get (activeUsers ?st0') ?uid = Some (entry_000 s)"
           "map_get (activeUsers ?st1') ?uid = Some (entry_001 s)"
    unfolding r0 r1 map_get_def by (simp_all add: map_of_map_set)
  have a5: "?uid \<in> set (map_keys (activeUsers ?st0)) \<longrightarrow>
              length (activeUsers ?st0') = length (activeUsers ?st0)"
           "?uid \<in> set (map_keys (activeUsers ?st1)) \<longrightarrow>
              length (activeUsers ?st1') = length (activeUsers ?st1)"
    unfolding r0 r1 map_keys_def by (blast intro: map_set_length_present)+
  have c0: "length (filter (\<lambda>e. field e ''id'' = Some ?uid) (map_values (activeUsers ?st0'))) = 1"
    using a3(1) by (simp only: count_id_keyed[OF k0] map_keys_def map_values_def)
  have z0: "zip (map_keys (activeUsers ?st0')) (map_values (activeUsers ?st0')) = activeUsers ?st0'"
    and z1: "zip (map_keys (activeUsers ?st1')) (map_values (activeUsers ?st1')) = activeUsers ?st1'"
    by (simp_all only: map_keys_def map_values_def zip_keys_values)
  have p0: "\<exists>i<length (map_values (activeUsers ?st0')).
              map_keys (activeUsers ?st0') ! i = ?uid
            \<and> map_values (activeUsers ?st0') ! i =
                [(''id'', ?uid), (''username'', username (user s)), (''socketId'', socket_id s)]
            \<and> (\<forall>j<length (map_values (activeUsers ?st0')). map_keys (activeUsers ?st0') ! j = ?uid \<longrightarrow> j = i)"
    using roster_position[of "activeUsers ?st0'" ?uid "entry_000 s"] a2(1) a4(1)
    by (simp only: map_keys_def map_get_def entry_000_def)
  have p1: "\<exists>i<length (map_values (activeUsers ?st1')).
              map_keys (activeUsers ?st1') ! i = ?uid
            \<and> map_values (activeUsers ?st1') ! i =
                [(''username'', username (user s)), (''socketId'', socket_id s)]
            \<and> (\<forall>j<length (map_values (activeUsers ?st1')). map_keys (activeUsers ?st1') ! j = ?uid \<longrightarrow> j = i)"
    using roster_position[of "activeUsers ?st1'" ?uid "entry_001 s"] a2(2) a4(2)
    by (simp only: map_keys_def map_get_def entry_001_def)
  have m0: "Emit t ''activeUsers'' (Users r) \<in> set (snd (server_000 save findById (Connection s) ?st0))
            \<Longrightarrow> r = map_values (activeUsers ?st0')" for t r
    unfolding e0 by (auto simp: map_values_def)
  have m1: "Emit t ''activeUsers'' (Users r) \<in> set (snd (server_001 save findById (Connection s) ?st1))
            \<Longrightarrow> r = map_values (activeUsers ?st1')" for t r
    unfolding e1 by (auto simp: map_values_def)
  have a6: "\<forall>t r. Emit t ''activeUsers'' (Users r) \<in> set (snd (server_000 save findById (Connection s) ?st0)) \<longrightarrow>
          zip (map_keys (activeUsers ?st0')) r = activeUsers ?st0'
        \<and> length (filter (\<lambda>e. field e ''id'' = Some ?uid) r) = 1
        \<and> r = map_values (activeUsers ?st0')
        \<and> (\<exists>i<length r.
              map_keys (activeUsers ?st0') ! i = ?uid
            \<and> r ! i = [(''id'', ?uid), (''username'', username (user s)), (''socketId'', socket_id s)]
            \<and> (\<forall>j<length r. map_keys (activeUsers ?st0') ! j = ?uid \<longrightarrow> j = i))"
  proof (intro allI impI)
    fix t r
    assume "Emit t ''activeUsers'' (Users r) \<in> set (snd (server_000 save findById (Connection s) ?st0))"
    then have "r = map_values (activeUsers ?st0')" by (rule m0)
    then show "zip (map_keys (activeUsers ?st0')) r = activeUsers ?st0'
        \<and> length (filter (\<lambda>e. field e ''id'' = Some ?uid) r) = 1
        \<and> r = map_values (activeUsers ?st0')
        \<and> (\<exists>i<length r.
              map_keys (activeUsers ?st0') ! i = ?uid
            \<and> r ! i = [(''id'', ?uid), (''username'', username (user s)), (''socketId'', socket_id s)]
            \<and> (\<forall>j<length r. map_keys (activeUsers ?st0') ! j = ?uid \<longrightarrow> j = i))"
      using z0 c0 p0 by (simp only: simp_thms)
  qed
  have a7: "\<forall>t r. Emit t ''activeUsers'' (Users r) \<in> set (snd (server_001 save findById (Connection s) ?st1)) \<longrightarrow>
          zip (map_keys (activeUsers ?st1')) r = activeUsers ?st1'
        \<and> r = map_values (activeUsers ?st1')
        \<and> (\<exists>i<length r.
              map_keys (activeUsers ?st1') ! i = ?uid
            \<and> r ! i = [(''username'', username (user s)), (''socketId'', socket_id s)]
            \<and> (\<forall>j<length r. map_keys (activeUsers ?st1') ! j = ?uid \<longrightarrow> j = i))"
  proof (intro allI impI)
    fix t r
    assume "Emit t ''activeUsers'' (Users r) \<in> set (snd (server_001 save findById (Connection s) ?st1))"
    then have "r = map_values (activeUsers ?st1')" by (rule m1)
    then show "zip (map_keys (activeUsers ?st1')) r = activeUsers ?st1'
        \<and> r = map_values (activeUsers ?st1')
        \<and> (\<exists>i<length r.
              map_keys (activeUsers ?st1') ! i = ?uid
            \<and> r ! i = [(''username'', username (user s)), (''socketId'', socket_id s)]
            \<and> (\<forall>j<length r. map_keys (activeUsers ?st1') ! j = ?uid \<longrightarrow> j = i))"
      using z1 p1 by (simp only: simp_thms)
  qed
  show ?thesis
    unfolding Let_def by (intro conjI; fact)
qed

text \<open>
  The scenario: alice and bob are present, alice connects again on socket s3. The roster
  sent to s3 has two records, one of them with alice's id; the roster part_001 emits has
  two records, the first being alice's with her new socket.
\<close>

theorem registry_one_entry_per_id_witness:
  "user_id (user alice_3) \<in> set (map_keys (activeUsers
       (state_after (server_000 (mem_save spec_validators) mem_findById) db0
          [Connection alice_1, Connection bob_2])))
   \<and> Emit (ToSocket ''s3'') ''activeUsers'' (Users [entry_000 alice_3, entry_000 bob_2])
       \<in> set (snd (server_000 (mem_save spec_validators) mem_findById (Connection alice_3)
            (state_after (server_000 (mem_save spec_validators) mem_findById) db0
               [Connection alice_1, Connection bob_2])))
   \<and> length (filter (\<lambda>e. field e ''id'' = Some ''u1'') [entry_000 alice_3, entry_000 bob_2]) = 1
   \<and> length (activeUsers (fst (server_000 (mem_save spec_validators) mem_findById (Connection alice_3)
        (state_after (server_000 (mem_save spec_validators) mem_findById) db0
           [Connection alice_1, Connection bob_2])))) = 2
   \<and> user_id (user alice_3) \<in> set (map_keys (activeUsers
       (state_after (server_001 (mem_save spec_validators) mem_findById) db0
          [Connection alice_1, Connection bob_2])))
   \<and> Emit ToAll ''activeUsers''
         (Users [[(''username'', ''alice''), (''socketId'', ''s3'')],
                 [(''username'', ''bob''), (''socketId'', ''s2'')]])
       \<in> set (snd (server_001 (mem_save spec_validators) mem_findById (Connection alice_3)
            (state_after (server_001 (mem_save spec_validators) mem_findById) db0
               [Connection alice_1, Connection bob_2])))
   \<and> map_keys (activeUsers (fst (server_001 (mem_save spec_validators) mem_findById (Connection alice_3)
        (state_after (server_001 (mem_save spec_validators) mem_findById) db0
           [Connection alice_1, Connection bob_2])))) = [''u1'', ''u2'']"
  using registry_one_entry_per_id
    [of "mem_save spec_validators" mem_findById db0 "[Connection alice_1, Connection bob_2]" alice_3]
  by (simp add: state_after_def server_000_def server_001_def on_event_def connection_000_def
      connection_001_def init_def Let_def map_keys_def map_values_def alice_1_def bob_2_def
      alice_3_def entry_000_def entry_001_def field_def)

text \<open>
  Claim C10. When an identity id that is present connects again, in both revisions the
  registry is the old one with the entry at the id's position overwritten: the keys and
  their order stay, and the rosters emitted list the new entry at that same position,
  not at the end. The new entry holds the new socket's username and socket id.
\<close>

theorem reregister_keeps_position:
  assumes "user_id (user s) \<in> set (map_keys (activeUsers st))"
  shows "\<exists>i<length (activeUsers st).
           map_keys (activeUsers st) ! i = user_id (user s)
         \<and> (\<forall>j<i. map_keys (activeUsers st) ! j \<noteq> user_id (user s))
         \<and> activeUsers (fst (connection_000 s st)) = (activeUsers st)[i := (user_id (user s), entry_000 s)]
         \<and> activeUsers (fst (connection_001 s st)) = (activeUsers st)[i := (user_id (user s), entry_001 s)]
         \<and> snd (connection_000 s st) =
             [Emit (ToSocket (socket_id s)) ''activeUsers''
                (Users ((map_values (activeUsers st))[i := entry_000 s])),
              Emit (ToOthers (socket_id s)) ''activeUsers''
                (Users ((map_values (activeUsers st))[i := entry_000 s]))]
         \<and> snd (connection_001 s st) =
             [Emit ToAll ''activeUsers'' (Users ((map_values (activeUsers st))[i := entry_001 s]))]
         \<and> field (entry_000 s) ''username'' = Some (username (user s))
         \<and> field (entry_000 s) ''socketId'' = Some (socket_id s)
         \<and> field (entry_001 s) ''username'' = Some (username (user s))
         \<and> field (entry_001 s) ''socketId'' = Some (socket_id s)"
proof -
  let ?m = "activeUsers st" and ?k = "user_id (user s)"
  from assms have "?k \<in> set (map fst ?m)" by (simp only: map_keys_def)
  from map_set_in_place[OF this, of "entry_000 s"]
  obtain i where i: "i < length ?m" "fst (?m ! i) = ?k" "\<forall>j<i. fst (?m ! j) \<noteq> ?k"
    and s0: "map_set ?m ?k (entry_000 s) = ?m[i := (?k, entry_000 s)]" by blast
  have first: "map_set ?m ?k v = ?m[i := (?k, v)]" for v
  proof -
    from \<open>?k \<in> set (map fst ?m)\<close> map_set_in_place[of ?k ?m v]
    obtain i' where i': "i' < length ?m" "fst (?m ! i') = ?k" "\<forall>j<i'. fst (?m ! j) \<noteq> ?k"
      "map_set ?m ?k v = ?m[i' := (?k, v)]" by blast
    have "i' = i"
      using i i' by (metis linorder_neqE_nat)
    with i' show ?thesis by simp
  qed
  have k1: "map_keys ?m ! i = ?k" using i by (simp add: map_keys_def)
  have k2: "\<forall>j<i. map_keys ?m ! j \<noteq> ?k" using i by (simp add: map_keys_def)
  have v: "map snd (?m[i := (?k, v)]) = (map_values ?m)[i := v]" for v
    by (simp add: map_values_def map_update)
  have c0: "activeUsers (fst (connection_000 s st)) = ?m[i := (?k, entry_000 s)]"
    by (simp add: connection_000_def Let_def first)
  have c1: "activeUsers (fst (connection_001 s st)) = ?m[i := (?k, entry_001 s)]"
    by (simp add: connection_001_def Let_def first)
  have e0: "snd (connection_000 s st) =
             [Emit (ToSocket (socket_id s)) ''activeUsers''
                (Users ((map_values ?m)[i := entry_000 s])),
              Emit (ToOthers (socket_id s)) ''activeUsers''
                (Users ((map_values ?m)[i := entry_000 s]))]"
    by (simp add: connection_000_def Let_def first map_values_def map_update)
  have e1: "snd (connection_001 s st) =
             [Emit ToAll ''activeUsers'' (Users ((map_values ?m)[i := entry_001 s]))]"
    by (simp add: connection_001_def Let_def first map_values_def map_update)
  have f: "field (entry_000 s) ''username'' = Some (username (user s))"
          "field (entry_000 s) ''socketId'' = Some (socket_id s)"
          "field (entry_001 s) ''username'' = Some (username (user s))"
          "field (entry_001 s) ''socketId'' = Some (socket_id s)"
    by (simp_all add: entry_000_def entry_001_def field_def)
  from i(1) k1 k2 c0 c1 e0 e1 f show ?thesis by blast
qed

text \<open>
  alice, first of two present users, connects again on socket s3: she stays first in the
  roster, now with s3 as her socket.
\<close>

theorem reregister_keeps_position_witness:
  "user_id (user alice_3) \<in> set (map_keys (activeUsers two_present))
   \<and> snd (connection_000 alice_3 two_present) =
       [Emit (ToSocket ''s3'') ''activeUsers'' (Users [entry_000 alice_3, entry_000 bob_2]),
        Emit (ToOthers ''s3'') ''activeUsers'' (Users [entry_000 alice_3, entry_000 bob_2])]
   \<and> map_keys (activeUsers (fst (connection_000 alice_3 two_present))) = [''u1'', ''u2'']"
  using reregister_keeps_position [of alice_3 two_present]
  by (simp add: two_present_def connection_000_def Let_def map_keys_def map_values_def
      alice_1_def bob_2_def alice_3_def entry_000_def)

section \<open>Insertion order\<close>

lemma server_000_keys:
  "map fst (activeUsers (fst (server_000 save findById ev st))) = keys_step ev (map fst (activeUsers st))"
  by (cases ev) (simp_all add: server_000_registry keys_step_def map_set_keys map_delete_keys)

lemma server_001_keys:
  "map fst (activeUsers (fst (server_001 save findById ev st))) = keys_step ev (map fst (activeUsers st))"
  by (cases ev) (simp_all add: server_001_registry keys_step_def map_set_keys map_delete_keys)

lemma joined_at_bound: "joined_at h k = Some t \<Longrightarrow> t < length h"
  by (induction h k arbitrary: t rule: joined_at.induct)
     (auto split: if_splits option.splits simp: less_Suc_eq)

lemma sorted_wrt_filter': "sorted_wrt R xs \<Longrightarrow> sorted_wrt R (filter P xs)"
  by (induction xs) auto

lemma sorted_wrt_cong_set:
  "sorted_wrt R xs \<Longrightarrow> (\<And>a b. a \<in> set xs \<Longrightarrow> b \<in> set xs \<Longrightarrow> R' a b = R a b) \<Longrightarrow> sorted_wrt R' xs"
  by (induction xs) auto

lemma keys_step_order:
  assumes "distinct ks"
    and "\<forall>k. (k \<in> set ks) = (joined_at h k \<noteq> None)"
    and "sorted_wrt (joined_before h) ks"
  shows "distinct (keys_step ev ks)
       \<and> (\<forall>k. (k \<in> set (keys_step ev ks)) = (joined_at (ev # h) k \<noteq> None))
       \<and> sorted_wrt (joined_before (ev # h)) (keys_step ev ks)"
proof (cases ev)
  case (Connection s)
  let ?u = "user_id (user s)"
  have jb: "joined_before (ev # h) a b = joined_before h a b" if "a \<noteq> ?u" "b \<noteq> ?u" for a b
    using that by (simp add: joined_before_def Connection cong: option.case_cong)
  show ?thesis
  proof (cases "?u \<in> set ks")
    case True
    then obtain t where t: "joined_at h ?u = Some t" using assms(2) by auto
    have same: "joined_at (ev # h) k = joined_at h k" for k
      using t by (auto simp: Connection)
    then have "joined_before (ev # h) = joined_before h"
      by (intro ext) (simp add: joined_before_def cong: option.case_cong)
    with True assms same show ?thesis by (simp add: keys_step_def Connection)
  next
    case False
    then have n: "joined_at h ?u = None" using assms(2) by auto
    have st: "joined_at (ev # h) k = (if k = ?u then Some (length h) else joined_at h k)" for k
      using n by (auto simp: Connection)
    have mono: "sorted_wrt (joined_before (ev # h)) ks"
    proof -
      have "joined_before (ev # h) a b = joined_before h a b" if "a \<in> set ks" "b \<in> set ks" for a b
        using that False by (intro jb) auto
      with assms(3) show ?thesis
        by (rule sorted_wrt_cong_set)
    qed
    have last: "joined_before (ev # h) a ?u" if "a \<in> set ks" for a
    proof -
      from that obtain t where t: "joined_at h a = Some t" using assms(2) by auto
      from that False have "a \<noteq> ?u" by auto
      with t joined_at_bound[OF t] show ?thesis by (simp add: joined_before_def st)
    qed
    from False assms(1,2) mono last st show ?thesis
      by (auto simp: keys_step_def Connection sorted_wrt_append)
  qed
next
  case (Disconnect s)
  let ?u = "user_id (user s)"
  have st: "joined_at (ev # h) k = (if k = ?u then None else joined_at h k)" for k
    by (simp add: Disconnect)
  have "joined_before (ev # h) a b = joined_before h a b" if "a \<noteq> ?u" "b \<noteq> ?u" for a b
    using that by (simp add: joined_before_def st cong: option.case_cong)
  then have "sorted_wrt (joined_before (ev # h)) (filter (\<lambda>x. x \<noteq> ?u) ks)"
    by (intro sorted_wrt_cong_set[OF sorted_wrt_filter'[OF assms(3), of "\<lambda>x. x \<noteq> ?u"]]) simp
  with assms(1,2) st show ?thesis
    by (auto simp: keys_step_def Disconnect)
next
  case (SendMessage s n dta)
  then have "joined_before (ev # h) = joined_before h"
    by (intro ext) (simp add: joined_before_def cong: option.case_cong)
  with assms SendMessage show ?thesis by (simp add: keys_step_def)
next
  case (Typing s)
  then have "joined_before (ev # h) = joined_before h"
    by (intro ext) (simp add: joined_before_def cong: option.case_cong)
  with assms Typing show ?thesis by (simp add: keys_step_def)
next
  case (StopTyping s)
  then have "joined_before (ev # h) = joined_before h"
    by (intro ext) (simp add: joined_before_def cong: option.case_cong)
  with assms StopTyping show ?thesis by (simp add: keys_step_def)
qed

lemma history_order:
  assumes step: "\<And>ev st. map fst (activeUsers (fst (step ev st))) = keys_step ev (map fst (activeUsers st))"
  shows "distinct (map fst (activeUsers (state_after step d evs)))
       \<and> (\<forall>k. (k \<in> set (map fst (activeUsers (state_after step d evs)))) = (joined_at (rev evs) k \<noteq> None))
       \<and> sorted_wrt (joined_before (rev evs)) (map fst (activeUsers (state_after step d evs)))"
proof (induction evs rule: rev_induct)
  case Nil
  show ?case by (simp add: state_after_Nil init_def)
next
  case (snoc ev evs)
  let ?ks = "map fst (activeUsers (state_after step d evs))"
  from snoc have a: "distinct ?ks"
    and b: "\<forall>k. (k \<in> set ?ks) = (joined_at (rev evs) k \<noteq> None)"
    and c: "sorted_wrt (joined_before (rev evs)) ?ks" by blast+
  from keys_step_order[OF a b c, of ev] show ?case
    by (simp add: state_after_snoc step)
qed

lemma list_all_map_set: "list_all P m \<Longrightarrow> P (k, v) \<Longrightarrow> list_all P (map_set m k v)"
  by (induction m) auto

lemma list_all_map_delete: "list_all P m \<Longrightarrow> list_all P (map_delete m k)"
  by (simp add: map_delete_def list_all_iff)

lemma state_after_000_shape:
  "list_all (\<lambda>p. map fst (snd p) = [''id'', ''username'', ''socketId''])
     (activeUsers (state_after (server_000 save findById) d evs))"
proof (induction evs rule: rev_induct)
  case Nil
  show ?case by (simp add: state_after_Nil init_def)
next
  case (snoc ev evs)
  then show ?case
    by (cases ev)
       (simp_all add: state_after_snoc server_000_registry list_all_map_set list_all_map_delete
          entry_000_def)
qed

lemma state_after_001_shape:
  "list_all (\<lambda>p. map fst (snd p) = [''username'', ''socketId''])
     (activeUsers (state_after (server_001 save findById) d evs))"
proof (induction evs rule: rev_induct)
  case Nil
  show ?case by (simp add: state_after_Nil init_def)
next
  case (snoc ev evs)
  then show ?case
    by (cases ev)
       (simp_all add: state_after_snoc server_001_registry list_all_map_set list_all_map_delete
          entry_001_def)
qed

lemma sendMessage_no_roster:
  "Emit t ''activeUsers'' p \<notin> set (snd (sendMessage save findById now s data st))"
  by (auto simp: sendMessage_def sendMessage_try_def error_event_def Let_def
      split: option.splits sum.splits prod.splits)

lemma server_000_roster:
  "Emit t ''activeUsers'' (Users r) \<in> set (snd (server_000 save findById ev st)) \<Longrightarrow>
   r = map_values (activeUsers (fst (server_000 save findById ev st)))"
  by (cases ev)
     (auto simp: server_000_def on_event_def connection_000_def disconnect_def typing_def
        stopTyping_def sendMessage_no_roster Let_def)

lemma server_001_roster:
  "Emit t ''activeUsers'' (Users r) \<in> set (snd (server_001 save findById ev st)) \<Longrightarrow>
   r = map_values (activeUsers (fst (server_001 save findById ev st)))"
  by (cases ev)
     (auto simp: server_001_def on_event_def connection_001_def disconnect_def typing_def
        stopTyping_def sendMessage_no_roster Let_def)

section \<open>The roster payload\<close>

text \<open>
  Claim C8, as amended. Every \<^verbatim>\<open>activeUsers\<close> payload that a step emits is
  \<^verbatim>\<open>Array.from(activeUsers.values())\<close> of the registry as the step leaves it: one
  record per present identity id, the ids being exactly those that joined and have not
  left since, in the order in which their present entries were inserted. In part_000
  each record has the fields \<^verbatim>\<open>id\<close>, \<^verbatim>\<open>username\<close>, \<^verbatim>\<open>socketId\<close>; in part_001
  the fields \<^verbatim>\<open>username\<close>, \<^verbatim>\<open>socketId\<close> and no \<^verbatim>\<open>id\<close>.
\<close>

theorem roster_is_registry_in_insertion_order:
  "(let st' = state_after (server_000 save findById) d (evs @ [ev])
    in (\<forall>t r. Emit t ''activeUsers'' (Users r)
                 \<in> set (snd (server_000 save findById ev (state_after (server_000 save findById) d evs)))
              \<longrightarrow> r = map_values (activeUsers st'))
     \<and> distinct (map_keys (activeUsers st'))
     \<and> (\<forall>k. (k \<in> set (map_keys (activeUsers st'))) = (joined_at (ev # rev evs) k \<noteq> None))
     \<and> sorted_wrt (joined_before (ev # rev evs)) (map_keys (activeUsers st'))
     \<and> (\<forall>e \<in> set (map_values (activeUsers st')). map fst e = [''id'', ''username'', ''socketId'']))
 \<and> (let st' = state_after (server_001 save findById) d (evs @ [ev])
    in (\<forall>t r. Emit t ''activeUsers'' (Users r)
                 \<in> set (snd (server_001 save findById ev (state_after (server_001 save findById) d evs)))
              \<longrightarrow> r = map_values (activeUsers st'))
     \<and> distinct (map_keys (activeUsers st'))
     \<and> (\<forall>k. (k \<in> set (map_keys (activeUsers st'))) = (joined_at (ev # rev evs) k \<noteq> None))
     \<and> sorted_wrt (joined_before (ev # rev evs)) (map_keys (activeUsers st'))
     \<and> (\<forall>e \<in> set (map_values (activeUsers st')). map fst e = [''username'', ''socketId'']))"
proof -
  let ?s0 = "state_after (server_000 save findById) d (evs @ [ev])"
  let ?s1 = "state_after (server_001 save findById) d (evs @ [ev])"
  have o0: "distinct (map_keys (activeUsers ?s0))
       \<and> (\<forall>k. (k \<in> set (map_keys (activeUsers ?s0))) = (joined_at (ev # rev evs) k \<noteq> None))
       \<and> sorted_wrt (joined_before (ev # rev evs)) (map_keys (activeUsers ?s0))"
    using history_order[of "server_000 save findById" d "evs @ [ev]", OF server_000_keys]
    by (simp add: map_keys_def)
  have o1: "distinct (map_keys (activeUsers ?s1))
       \<and> (\<forall>k. (k \<in> set (map_keys (activeUsers ?s1))) = (joined_at (ev # rev evs) k \<noteq> None))
       \<and> sorted_wrt (joined_before (ev # rev evs)) (map_keys (activeUsers ?s1))"
    using history_order[of "server_001 save findById" d "evs @ [ev]", OF server_001_keys]
    by (simp add: map_keys_def)
  have p0: "\<forall>t r. Emit t ''activeUsers'' (Users r)
                 \<in> set (snd (server_000 save findById ev (state_after (server_000 save findById) d evs)))
              \<longrightarrow> r = map_values (activeUsers ?s0)"
    by (simp add: state_after_snoc server_000_roster)
  have p1: "\<forall>t r. Emit t ''activeUsers'' (Users r)
                 \<in> set (snd (server_001 save findById ev (state_after (server_001 save findById) d evs)))
              \<longrightarrow> r = map_values (activeUsers ?s1)"
    by (simp add: state_after_snoc server_001_roster)
  have h0: "\<forall>e \<in> set (map_values (activeUsers ?s0)). map fst e = [''id'', ''username'', ''socketId'']"
    using state_after_000_shape[of save findById d "evs @ [ev]"]
    by (auto simp: map_values_def list_all_iff)
  have h1: "\<forall>e \<in> set (map_values (activeUsers ?s1)). map fst e = [''username'', ''socketId'']"
    using state_after_001_shape[of save findById d "evs @ [ev]"]
    by (auto simp: map_values_def list_all_iff)
  show ?thesis
    unfolding Let_def using o0 o1 p0 p1 h0 h1 by blast
qed

text \<open>
  alice joins, bob joins, alice leaves and joins again: the roster sent to her new socket
  lists bob (joined at event 1) before her (joined at event 3).
\<close>

theorem roster_is_registry_in_insertion_order_witness:
  "Emit (ToSocket ''s3'') ''activeUsers'' (Users [entry_000 bob_2, entry_000 alice_3])
     \<in> set (snd (server_000 (mem_save spec_validators) mem_findById (Connection alice_3)
          (state_after (server_000 (mem_save spec_validators) mem_findById) db0
             [Connection alice_1, Connection bob_2, Disconnect alice_1])))
   \<and> entry_000 bob_2 \<in> set (map_values (activeUsers
        (state_after (server_000 (mem_save spec_validators) mem_findById) db0
           ([Connection alice_1, Connection bob_2, Disconnect alice_1] @ [Connection alice_3]))))
   \<and> map_values (activeUsers
        (state_after (server_000 (mem_save spec_validators) mem_findById) db0
           ([Connection alice_1, Connection bob_2, Disconnect alice_1] @ [Connection alice_3])))
      = [entry_000 bob_2, entry_000 alice_3]
   \<and> joined_at (Connection alice_3 # rev [Connection alice_1, Connection bob_2, Disconnect alice_1]) ''u2'' = Some 1
   \<and> joined_at (Connection alice_3 # rev [Connection alice_1, Connection bob_2, Disconnect alice_1]) ''u1'' = Some 3"
  using roster_is_registry_in_insertion_order
    [of "mem_save spec_validators" mem_findById db0
        "[Connection alice_1, Connection bob_2, Disconnect alice_1]" "Connection alice_3"]
  by (simp add: state_after_def server_000_def on_event_def connection_000_def disconnect_def
      init_def Let_def map_keys_def map_values_def map_delete_def
      alice_1_def bob_2_def alice_3_def entry_000_def)

text \<open>
  Claim C8 as stated fails on the shape of the records: the roster part_001 emits for
  alice's connection holds the record \<^verbatim>\<open>{ username, socketId }\<close>, which has no
  \<^verbatim>\<open>id\<close>; the one part_000 emits holds \<^verbatim>\<open>{ id, username, socketId }\<close>.
\<close>

theorem roster_shape_counterexample:
  "snd (server_001 (mem_save spec_validators) mem_findById (Connection alice_1) (init db0)) =
     [Emit ToAll ''activeUsers'' (Users [[(''username'', ''alice''), (''socketId'', ''s1'')]])]
   \<and> field [(''username'', ''alice''), (''socketId'', ''s1'')] ''id'' = None
   \<and> snd (server_000 (mem_save spec_validators) mem_findById (Connection alice_1) (init db0)) =
     [Emit (ToSocket ''s1'') ''activeUsers''
        (Users [[(''id'', ''u1''), (''username'', ''alice''), (''socketId'', ''s1'')]]),
      Emit (ToOthers ''s1'') ''activeUsers''
        (Users [[(''id'', ''u1''), (''username'', ''alice''), (''socketId'', ''s1'')]])]"
  by (simp add: server_001_def server_000_def on_event_def connection_001_def connection_000_def
      init_def Let_def map_values_def alice_1_def entry_001_def entry_000_def field_def)

section \<open>Announcements on admission\<close>

text \<open>
  Claim C7, as amended. On the admission of a socket whose id is new, the server first
  stores the entry and then announces the resulting roster: part_000 with exactly two
  emits, one to the new socket alone and one to all other sockets; part_001 with exactly
  one emit to all sockets. In both, every connected socket, the new one included, is
  sent the roster exactly once.
\<close>

theorem admission_announces_roster:
  assumes "socket_id s \<notin> set (map socket_id (connected st))"
  shows
  "(let st' = fst (server_000 save findById (Connection s) st);
        es = snd (server_000 save findById (Connection s) st);
        roster = Users (map_values (activeUsers st'))
    in activeUsers st' = map_set (activeUsers st) (user_id (user s)) (entry_000 s)
     \<and> connected st' = connected st @ [s]
     \<and> es = [Emit (ToSocket (socket_id s)) ''activeUsers'' roster,
             Emit (ToOthers (socket_id s)) ''activeUsers'' roster]
     \<and> recipients (ToSocket (socket_id s)) (connected st') = [socket_id s]
     \<and> recipients (ToOthers (socket_id s)) (connected st') = map socket_id (connected st)
     \<and> deliveries es (connected st') =
         map (\<lambda>i. (i, ''activeUsers'', roster)) (socket_id s # map socket_id (connected st)))
 \<and> (let st' = fst (server_001 save findById (Connection s) st);
        es = snd (server_001 save findById (Connection s) st);
        roster = Users (map_values (activeUsers st'))
    in activeUsers st' = map_set (activeUsers st) (user_id (user s)) (entry_001 s)
     \<and> connected st' = connected st @ [s]
     \<and> es = [Emit ToAll ''activeUsers'' roster]
     \<and> recipients ToAll (connected st') = map socket_id (connected st) @ [socket_id s]
     \<and> deliveries es (connected st') =
         map (\<lambda>i. (i, ''activeUsers'', roster)) (map socket_id (connected st) @ [socket_id s]))"
proof -
  have f: "filter (\<lambda>j. j \<noteq> socket_id s) (map socket_id (connected st)) =
           map socket_id (connected st)"
    using assms by (auto simp: filter_id_conv intro: rev_image_eqI)
  show ?thesis
    by (simp add: server_000_def server_001_def on_event_def connection_000_def connection_001_def
        Let_def f)
qed

text \<open>bob connects while alice is connected: s2 and s1 each get the roster of two.\<close>

theorem admission_announces_roster_witness:
  "socket_id bob_2 \<notin> set (map socket_id (connected
       (state_after (server_000 (mem_save spec_validators) mem_findById) db0 [Connection alice_1])))
   \<and> deliveries
        (snd (server_000 (mem_save spec_validators) mem_findById (Connection bob_2)
           (state_after (server_000 (mem_save spec_validators) mem_findById) db0 [Connection alice_1])))
        (connected (fst (server_000 (mem_save spec_validators) mem_findById (Connection bob_2)
           (state_after (server_000 (mem_save spec_validators) mem_findById) db0 [Connection alice_1]))))
      = [(''s2'', ''activeUsers'', Users [entry_000 alice_1, entry_000 bob_2]),
         (''s1'', ''activeUsers'', Users [entry_000 alice_1, entry_000 bob_2])]"
  using admission_announces_roster
    [of bob_2 "state_after (server_000 (mem_save spec_validators) mem_findById) db0 [Connection alice_1]"
        "mem_save spec_validators" mem_findById]
  by (simp add: state_after_def server_000_def on_event_def connection_000_def
      init_def Let_def map_values_def alice_1_def bob_2_def entry_000_def)

text \<open>
  Claim C7 as stated fails on part_001: bob's admission produces one announcement, an
  \<^verbatim>\<open>io.emit\<close> to all sockets, not one to bob and one to the others.
\<close>

theorem two_announcements_counterexample:
  "snd (server_001 (mem_save spec_validators) mem_findById (Connection bob_2)
     (state_after (server_001 (mem_save spec_validators) mem_findById) db0 [Connection alice_1])) =
   [Emit ToAll ''activeUsers'' (Users [entry_001 alice_1, entry_001 bob_2])]"
  by (simp add: state_after_def server_001_def on_event_def connection_001_def
      init_def Let_def map_values_def alice_1_def bob_2_def entry_001_def)

section \<open>The client's duplicate check\<close>

lemma onNewMessage_fresh:
  "truthy (msg_id m) \<Longrightarrow> truthy (msg_content m) \<Longrightarrow> \<not> list_ex (\<lambda>x. msg_id x = msg_id m) prev \<Longrightarrow>
   onNewMessage (Some m) prev = prev @ [m]"
  by (simp add: onNewMessage_def)

lemma onNewMessage_known:
  "list_ex (\<lambda>x. msg_id x = msg_id m) prev \<Longrightarrow> onNewMessage (Some m) prev = prev"
  by (simp add: onNewMessage_def)

text \<open>
  Claim C9. Delivering the same \<^verbatim>\<open>newMessage\<close> event twice leaves the message
  list as one delivery leaves it. A message with an \<^verbatim>\<open>_id\<close> and a content that is
  not in the list yet is appended by the first delivery and ignored by the second.
\<close>

theorem newMessage_listener_idempotent:
  "onNewMessage message (onNewMessage message prev) = onNewMessage message prev
   \<and> (\<forall>m. message = Some m \<and> truthy (msg_id m) \<and> truthy (msg_content m)
            \<and> \<not> list_ex (\<lambda>x. msg_id x = msg_id m) prev
        \<longrightarrow> onNewMessage message prev = prev @ [m]
          \<and> onNewMessage message (prev @ [m]) = prev @ [m])"
proof (cases message)
  case None
  then show ?thesis by (simp add: onNewMessage_def)
next
  case (Some m)
  show ?thesis
  proof (cases "truthy (msg_id m) \<and> truthy (msg_content m) \<and> \<not> list_ex (\<lambda>x. msg_id x = msg_id m) prev")
    case True
    then have 1: "onNewMessage (Some m) prev = prev @ [m]" by (simp add: onNewMessage_fresh)
    have "list_ex (\<lambda>x. msg_id x = msg_id m) (prev @ [m])" by (simp add: list_ex_iff)
    then have 2: "onNewMessage (Some m) (prev @ [m]) = prev @ [m]" by (rule onNewMessage_known)
    from 1 2 Some show ?thesis by simp
  next
    case False
    then have "onNewMessage (Some m) prev = prev" by (auto simp: onNewMessage_def)
    with False Some show ?thesis by auto
  qed
qed

text \<open>bob's message delivered twice to an empty list: the list holds it once.\<close>

theorem newMessage_listener_idempotent_witness:
  "truthy (msg_id hello) \<and> truthy (msg_content hello) \<and> \<not> list_ex (\<lambda>x. msg_id x = msg_id hello) []
   \<and> onNewMessage (Some hello) [] = [hello]
   \<and> onNewMessage (Some hello) (onNewMessage (Some hello) []) = [hello]"
  using newMessage_listener_idempotent [of "Some hello" "[]"]
  by (simp add: hello_def truthy_def)

section \<open>Admission\<close>

lemma io_use_000_missing:
  "\<not> truthy (token hs) \<Longrightarrow> io_use_000 jwt_verify hs = Inl ''Authentication error: No token provided''"
  by (simp add: io_use_000_def)

lemma io_use_000_invalid:
  "token hs = Some t \<Longrightarrow> t \<noteq> [] \<Longrightarrow> jwt_verify t = None \<Longrightarrow>
   io_use_000 jwt_verify hs = Inl ''Authentication error: Invalid token''"
  by (simp add: io_use_000_def truthy_def)

lemma io_use_000_valid:
  "token hs = Some t \<Longrightarrow> t \<noteq> [] \<Longrightarrow> jwt_verify t = Some u \<Longrightarrow> io_use_000 jwt_verify hs = Inr u"
  by (simp add: io_use_000_def truthy_def)

lemma admit_rejected: "middleware hs = Inl err \<Longrightarrow> admit middleware handler hs st = (st, [ConnectError err])"
  by (simp add: admit_def)

lemma admit_accepted:
  "middleware hs = Inr u \<Longrightarrow>
   admit middleware handler hs st =
     handler \<lparr>socket_id = hs_socket_id hs, user = u\<rparr>
       (st\<lparr>connected := connected st @ [\<lparr>socket_id = hs_socket_id hs, user = u\<rparr>]\<rparr>)"
  by (simp add: admit_def Let_def)

text \<open>
  Claim C5. The middleware runs before the \<^verbatim>\<open>connection\<close> handler. In part_000 a
  handshake without a token is refused with the error "No token provided", a handshake
  whose token \<^verbatim>\<open>jwt.verify\<close> rejects is refused with "Invalid token"; in part_001
  a handshake is refused with whatever error \<^verbatim>\<open>verifySocketToken\<close> passes on. A
  refused handshake leaves the server state as it was: no socket is connected, no
  registry entry is made, nothing is emitted to the sockets. Only an accepted handshake
  reaches the handler, with the verified identity as \<^verbatim>\<open>socket.user\<close>.
\<close>

theorem verification_before_admission:
  "(\<not> truthy (token hs) \<longrightarrow>
      attempt_000 jwt_verify hs st = (st, [ConnectError ''Authentication error: No token provided'']))
 \<and> (\<forall>t. token hs = Some t \<and> t \<noteq> [] \<and> jwt_verify t = None \<longrightarrow>
      attempt_000 jwt_verify hs st = (st, [ConnectError ''Authentication error: Invalid token'']))
 \<and> (\<forall>t u. token hs = Some t \<and> t \<noteq> [] \<and> jwt_verify t = Some u \<longrightarrow>
      attempt_000 jwt_verify hs st =
        connection_000 \<lparr>socket_id = hs_socket_id hs, user = u\<rparr>
          (st\<lparr>connected := connected st @ [\<lparr>socket_id = hs_socket_id hs, user = u\<rparr>]\<rparr>))
 \<and> (\<forall>err. verifySocketToken hs = Inl err \<longrightarrow>
      attempt_001 verifySocketToken hs st = (st, [ConnectError err]))
 \<and> (\<forall>u. verifySocketToken hs = Inr u \<longrightarrow>
      attempt_001 verifySocketToken hs st =
        connection_001 \<lparr>socket_id = hs_socket_id hs, user = u\<rparr>
          (st\<lparr>connected := connected st @ [\<lparr>socket_id = hs_socket_id hs, user = u\<rparr>]\<rparr>))"
  by (simp add: attempt_000_def attempt_001_def admit_rejected admit_accepted
      io_use_000_missing io_use_000_invalid io_use_000_valid)

text \<open>
  Handshakes without a token, with a forged token and with an empty token are refused
  and change nothing; alice's token is admitted.
\<close>

theorem verification_before_admission_witness:
  "\<not> truthy (token \<lparr>hs_socket_id = ''s9'', token = None\<rparr>)
   \<and> attempt_000 verify_demo \<lparr>hs_socket_id = ''s9'', token = None\<rparr> two_present =
       (two_present, [ConnectError ''Authentication error: No token provided''])
   \<and> verify_demo ''forged'' = None
   \<and> attempt_000 verify_demo \<lparr>hs_socket_id = ''s9'', token = Some ''forged''\<rparr> two_present =
       (two_present, [ConnectError ''Authentication error: Invalid token''])
   \<and> verify_demo ''alice-token'' = Some (user alice_3)
   \<and> attempt_000 verify_demo \<lparr>hs_socket_id = ''s3'', token = Some ''alice-token''\<rparr> two_present =
       connection_000 alice_3 (two_present\<lparr>connected := connected two_present @ [alice_3]\<rparr>)
   \<and> attempt_001 (io_use_000 verify_demo) \<lparr>hs_socket_id = ''s9'', token = Some []\<rparr> two_present =
       (two_present, [ConnectError ''Authentication error: No token provided''])
   \<and> attempt_001 (io_use_000 verify_demo) \<lparr>hs_socket_id = ''s3'', token = Some ''alice-token''\<rparr> two_present =
       connection_001 alice_3 (two_present\<lparr>connected := connected two_present @ [alice_3]\<rparr>)"
  using verification_before_admission
          [of "\<lparr>hs_socket_id = ''s9'', token = None\<rparr>" verify_demo two_present "io_use_000 verify_demo"]
        verification_before_admission
          [of "\<lparr>hs_socket_id = ''s9'', token = Some ''forged''\<rparr>" verify_demo two_present
              "io_use_000 verify_demo"]
        verification_before_admission
          [of "\<lparr>hs_socket_id = ''s3'', token = Some ''alice-token''\<rparr>" verify_demo two_present
              "io_use_000 verify_demo"]
        verification_before_admission
          [of "\<lparr>hs_socket_id = ''s9'', token = Some []\<rparr>" verify_demo two_present
              "io_use_000 verify_demo"]
  by (simp add: truthy_def verify_demo_def alice_3_def io_use_000_def)

section \<open>Sending a message\<close>

lemma sendMessage_no_payload:
  "sendMessage save findById now s None st = (st, [error_event s])"
  by (simp add: sendMessage_def sendMessage_try_def)

lemma sendMessage_save_fails:
  "save \<lparr>sender = user_id (user s), content = field d ''content'', timestamp = now\<rparr> (db st) = Inl e \<Longrightarrow>
   sendMessage save findById now s (Some d) st =
     (st, [Save \<lparr>sender = user_id (user s), content = field d ''content'', timestamp = now\<rparr>,
           error_event s])"
  by (simp add: sendMessage_def sendMessage_try_def Let_def)

lemma sendMessage_find_fails:
  "save \<lparr>sender = user_id (user s), content = field d ''content'', timestamp = now\<rparr> (db st) = Inr (i, db') \<Longrightarrow>
   findById i db' = Inl e \<Longrightarrow>
   sendMessage save findById now s (Some d) st =
     (st\<lparr>db := db'\<rparr>,
      [Save \<lparr>sender = user_id (user s), content = field d ''content'', timestamp = now\<rparr>,
       FindById i, error_event s])"
  by (simp add: sendMessage_def sendMessage_try_def Let_def)

lemma sendMessage_ok:
  "save \<lparr>sender = user_id (user s), content = field d ''content'', timestamp = now\<rparr> (db st) = Inr (i, db') \<Longrightarrow>
   findById i db' = Inr pm \<Longrightarrow>
   sendMessage save findById now s (Some d) st =
     (st\<lparr>db := db'\<rparr>,
      [Save \<lparr>sender = user_id (user s), content = field d ''content'', timestamp = now\<rparr>,
       FindById i, Emit ToAll ''newMessage'' (Msg pm)])"
  by (simp add: sendMessage_def sendMessage_try_def Let_def)

lemma mem_save_then_find:
  "mem_save v doc d = Inr (i, d') \<Longrightarrow> mem_findById i d' = Inr (Some (populate d' i doc))"
  by (auto simp: mem_save_def mem_findById_def nth_append split: if_splits)

text \<open>
  Claim C3. When \<^verbatim>\<open>save\<close> and the read-back succeed, the handler has made exactly
  one \<^verbatim>\<open>save\<close> call, for the document with the socket's user id and the payload's
  content, and emits exactly one \<^verbatim>\<open>newMessage\<close>, with \<^verbatim>\<open>io.emit\<close>: every
  connected socket is sent the populated message once, the sender's own socket among
  them.
\<close>

theorem valid_message_saved_once_and_broadcast_to_all:
  assumes "save \<lparr>sender = user_id (user s), content = field d ''content'', timestamp = now\<rparr> (db st)
             = Inr (i, db')"
    and "findById i db' = Inr populatedMessage"
  shows "sendMessage save findById now s (Some d) st =
           (st\<lparr>db := db'\<rparr>,
            [Save \<lparr>sender = user_id (user s), content = field d ''content'', timestamp = now\<rparr>,
             FindById i,
             Emit ToAll ''newMessage'' (Msg populatedMessage)])
       \<and> deliveries (snd (sendMessage save findById now s (Some d) st))
            (connected (fst (sendMessage save findById now s (Some d) st))) =
           map (\<lambda>c. (socket_id c, ''newMessage'', Msg populatedMessage)) (connected st)
       \<and> (\<forall>c \<in> set (connected st).
            length (filter (\<lambda>x. x = (socket_id c, ''newMessage'', Msg populatedMessage))
              (deliveries (snd (sendMessage save findById now s (Some d) st)) [c])) = 1)
       \<and> (s \<in> set (connected st) \<longrightarrow>
            (socket_id s, ''newMessage'', Msg populatedMessage)
              \<in> set (deliveries (snd (sendMessage save findById now s (Some d) st))
                     (connected (fst (sendMessage save findById now s (Some d) st)))))"
  using assms by (auto simp: sendMessage_ok comp_def image_iff)


lemma two_present_save_hi:
  "mem_save spec_validators \<lparr>sender = user_id (user bob_2), content = field hi ''content'', timestamp = 7\<rparr>
     (db two_present) = Inr (''m'', db0\<lparr>messages := [hi_doc]\<rparr>)"
  by (simp add: mem_save_def spec_validators_def whitespace_def two_present_def db0_def hi_def hi_doc_def bob_2_def
      field_def)

lemma find_hi: "mem_findById ''m'' (db0\<lparr>messages := [hi_doc]\<rparr>) = Inr (Some hello)"
  by (simp add: mem_findById_def populate_def db0_def hi_doc_def hello_def)

text \<open>bob sends \<^verbatim>\<open>hi\<close> while alice and bob are connected: s1 and s2 each get it.\<close>

theorem valid_message_saved_once_and_broadcast_to_all_witness:
  "mem_save spec_validators \<lparr>sender = user_id (user bob_2), content = field hi ''content'', timestamp = 7\<rparr>
     (db two_present) = Inr (''m'', db0\<lparr>messages := [hi_doc]\<rparr>)
   \<and> mem_findById ''m'' (db0\<lparr>messages := [hi_doc]\<rparr>) = Inr (Some hello)
   \<and> bob_2 \<in> set (connected two_present)
   \<and> sendMessage (mem_save spec_validators) mem_findById 7 bob_2 (Some hi) two_present =
       (two_present\<lparr>db := db0\<lparr>messages := [hi_doc]\<rparr>\<rparr>,
        [Save hi_doc, FindById ''m'', Emit ToAll ''newMessage'' (Msg (Some hello))])
   \<and> deliveries (snd (sendMessage (mem_save spec_validators) mem_findById 7 bob_2 (Some hi) two_present))
        (connected (fst (sendMessage (mem_save spec_validators) mem_findById 7 bob_2 (Some hi) two_present)))
       = [(''s1'', ''newMessage'', Msg (Some hello)), (''s2'', ''newMessage'', Msg (Some hello))]"
  using valid_message_saved_once_and_broadcast_to_all
          [of "mem_save spec_validators" bob_2 hi 7 two_present "''m''" "db0\<lparr>messages := [hi_doc]\<rparr>"
              mem_findById "Some hello", OF two_present_save_hi find_hi]
  by (simp add: two_present_save_hi find_hi)
     (simp add: two_present_def hi_def hi_doc_def bob_2_def alice_1_def field_def)

text \<open>
  Claim C4. When \<^verbatim>\<open>save\<close> throws, or the read-back after it throws, the handler
  emits no \<^verbatim>\<open>newMessage\<close>; its only delivery is the \<^verbatim>\<open>error\<close> event to the
  submitting socket. The exception is caught by the handler's \<^verbatim>\<open>catch\<close> block: the
  handler returns, with the registry and the connected sockets as they were.
\<close>

theorem storage_failure_reported_to_sender_only:
  assumes "save \<lparr>sender = user_id (user s), content = field d ''content'', timestamp = now\<rparr> (db st) = Inl e
         \<or> (\<exists>i db'. save \<lparr>sender = user_id (user s), content = field d ''content'', timestamp = now\<rparr> (db st)
                        = Inr (i, db')
                    \<and> findById i db' = Inl e)"
  shows "(\<forall>t p. Emit t ''newMessage'' p \<notin> set (snd (sendMessage save findById now s (Some d) st)))
       \<and> deliveries (snd (sendMessage save findById now s (Some d) st)) cs =
           [(socket_id s, ''error'', Object [(''message'', ''Failed to send message'')])]
       \<and> activeUsers (fst (sendMessage save findById now s (Some d) st)) = activeUsers st
       \<and> connected (fst (sendMessage save findById now s (Some d) st)) = connected st
       \<and> (\<exists>es. sendMessage_try save findById now s (Some d) st
                  = Inl (e, fst (sendMessage save findById now s (Some d) st), es)
              \<and> snd (sendMessage save findById now s (Some d) st) = es @ [error_event s])"
  using assms
proof
  assume a: "save \<lparr>sender = user_id (user s), content = field d ''content'', timestamp = now\<rparr> (db st) = Inl e"
  have t: "sendMessage_try save findById now s (Some d) st =
             Inl (e, st, [Save \<lparr>sender = user_id (user s), content = field d ''content'', timestamp = now\<rparr>])"
    using a by (simp add: sendMessage_try_def Let_def)
  from a show ?thesis
    by (simp add: sendMessage_save_fails t error_event_def)
next
  assume "\<exists>i db'. save \<lparr>sender = user_id (user s), content = field d ''content'', timestamp = now\<rparr> (db st)
                        = Inr (i, db')
                    \<and> findById i db' = Inl e"
  then obtain i db' where
    a: "save \<lparr>sender = user_id (user s), content = field d ''content'', timestamp = now\<rparr> (db st) = Inr (i, db')"
    and b: "findById i db' = Inl e" by blast
  have t: "sendMessage_try save findById now s (Some d) st =
             Inl (e, st\<lparr>db := db'\<rparr>,
                  [Save \<lparr>sender = user_id (user s), content = field d ''content'', timestamp = now\<rparr>,
                   FindById i])"
    using a b by (simp add: sendMessage_try_def Let_def)
  from a b show ?thesis
    by (simp add: sendMessage_find_fails t error_event_def)
qed

text \<open>
  bob sends \<^verbatim>\<open>hi\<close> while the store is down: only s2 hears of it. The same when
  only the read-back is down; the document has been stored by then.
\<close>

theorem storage_failure_reported_to_sender_only_witness:
  "store_down \<lparr>sender = user_id (user bob_2), content = field hi ''content'', timestamp = 7\<rparr>
     (db two_present) = Inl ''MongoNetworkError''
   \<and> sendMessage store_down mem_findById 7 bob_2 (Some hi) two_present =
       (two_present, [Save hi_doc, error_event bob_2])
   \<and> deliveries (snd (sendMessage store_down mem_findById 7 bob_2 (Some hi) two_present))
        (connected two_present) =
       [(''s2'', ''error'', Object [(''message'', ''Failed to send message'')])]
   \<and> read_down ''m'' (db0\<lparr>messages := [hi_doc]\<rparr>) = Inl ''MongoNetworkError''
   \<and> sendMessage (mem_save spec_validators) read_down 7 bob_2 (Some hi) two_present =
       (two_present\<lparr>db := db0\<lparr>messages := [hi_doc]\<rparr>\<rparr>,
        [Save hi_doc, FindById ''m'', error_event bob_2])
   \<and> deliveries (snd (sendMessage (mem_save spec_validators) read_down 7 bob_2 (Some hi) two_present))
        (connected two_present) =
       [(''s2'', ''error'', Object [(''message'', ''Failed to send message'')])]"
  using storage_failure_reported_to_sender_only
          [of store_down bob_2 hi 7 two_present "''MongoNetworkError''" mem_findById "connected two_present"]
        storage_failure_reported_to_sender_only
          [of "mem_save spec_validators" bob_2 hi 7 two_present "''MongoNetworkError''" read_down
              "connected two_present"]
  by (simp add: store_down_def read_down_def sendMessage_def sendMessage_try_def Let_def
      mem_save_def spec_validators_def whitespace_def two_present_def db0_def hi_def hi_doc_def
      bob_2_def field_def error_event_def)

lemma invalid_refused:
  "list_all whitespace c \<or> 1000 < length c \<Longrightarrow> \<not> spec_validators (Some c)"
  by (auto simp: spec_validators_def)

text \<open>
  Claim C2, as amended. The handler makes no check of the content: for every payload its
  first act is the \<^verbatim>\<open>save\<close> call with the content as given, so the persistence call
  is made for an empty, a whitespace-only and an over-long content too. Whenever
  \<^verbatim>\<open>save\<close> refuses the document, nothing is stored, nothing is broadcast and the
  submitting socket alone gets the \<^verbatim>\<open>error\<close> event, the same as for any other
  storage failure. A store with the specification's content rule refuses every content
  that is empty, only whitespace or longer than 1000 code units.
\<close>

theorem handler_makes_no_content_check:
  "(\<exists>rest. snd (sendMessage save findById now s (Some d) st) =
             Save \<lparr>sender = user_id (user s), content = field d ''content'', timestamp = now\<rparr> # rest)
 \<and> (\<forall>e. save \<lparr>sender = user_id (user s), content = field d ''content'', timestamp = now\<rparr> (db st) = Inl e
        \<longrightarrow> sendMessage save findById now s (Some d) st =
              (st, [Save \<lparr>sender = user_id (user s), content = field d ''content'', timestamp = now\<rparr>,
                    error_event s])
          \<and> deliveries (snd (sendMessage save findById now s (Some d) st)) cs =
              [(socket_id s, ''error'', Object [(''message'', ''Failed to send message'')])])
 \<and> (\<forall>c. field d ''content'' = Some c \<and> (list_all whitespace c \<or> 1000 < length c)
        \<longrightarrow> sendMessage (mem_save spec_validators) mem_findById now s (Some d) mst =
              (mst, [Save \<lparr>sender = user_id (user s), content = Some c, timestamp = now\<rparr>,
                     error_event s])
          \<and> deliveries (snd (sendMessage (mem_save spec_validators) mem_findById now s (Some d) mst)) cs =
              [(socket_id s, ''error'', Object [(''message'', ''Failed to send message'')])])"
proof -
  let ?doc = "\<lparr>sender = user_id (user s), content = field d ''content'', timestamp = now\<rparr>"
  have 1: "\<exists>rest. snd (sendMessage save findById now s (Some d) st) = Save ?doc # rest"
    by (auto simp: sendMessage_def sendMessage_try_def Let_def split: sum.splits prod.splits)
  have 2: "\<forall>e. save ?doc (db st) = Inl e
        \<longrightarrow> sendMessage save findById now s (Some d) st = (st, [Save ?doc, error_event s])
          \<and> deliveries (snd (sendMessage save findById now s (Some d) st)) cs =
              [(socket_id s, ''error'', Object [(''message'', ''Failed to send message'')])]"
    by (simp add: sendMessage_save_fails error_event_def)
  have 3: "sendMessage (mem_save spec_validators) mem_findById now s (Some d) mst =
              (mst, [Save \<lparr>sender = user_id (user s), content = Some c, timestamp = now\<rparr>,
                     error_event s])
          \<and> deliveries (snd (sendMessage (mem_save spec_validators) mem_findById now s (Some d) mst)) cs =
              [(socket_id s, ''error'', Object [(''message'', ''Failed to send message'')])]"
    if c: "field d ''content'' = Some c" and bad: "list_all whitespace c \<or> 1000 < length c" for c
  proof -
    from bad have "\<not> spec_validators (Some c)" by (rule invalid_refused)
    then have "mem_save spec_validators \<lparr>sender = user_id (user s), content = field d ''content'',
                 timestamp = now\<rparr> (db mst) = Inl ''ValidationError''"
      by (simp add: mem_save_def c)
    then show ?thesis
      by (simp add: sendMessage_save_fails c error_event_def)
  qed
  from 1 2 3 show ?thesis by blast
qed

text \<open>
  bob sends an empty content, three blanks and 1001 letters to a store with the
  specification's content rule: each time the document is handed to \<^verbatim>\<open>save\<close>,
  refused, and only s2 hears of it.
\<close>

theorem handler_makes_no_content_check_witness:
  "field blank ''content'' = Some ''''
   \<and> list_all whitespace ''''
   \<and> sendMessage (mem_save spec_validators) mem_findById 7 bob_2 (Some blank) two_present =
       (two_present, [Save blank_doc, error_event bob_2])
   \<and> field spaces ''content'' = Some ''   ''
   \<and> list_all whitespace ''   ''
   \<and> sendMessage (mem_save spec_validators) mem_findById 7 bob_2 (Some spaces) two_present =
       (two_present,
        [Save \<lparr>sender = ''u2'', content = Some ''   '', timestamp = 7\<rparr>, error_event bob_2])
   \<and> field too_long ''content'' = Some (replicate 1001 CHR ''a'')
   \<and> 1000 < length (replicate 1001 CHR ''a'')
   \<and> sendMessage (mem_save spec_validators) mem_findById 7 bob_2 (Some too_long) two_present =
       (two_present,
        [Save \<lparr>sender = ''u2'', content = Some (replicate 1001 CHR ''a''), timestamp = 7\<rparr>,
         error_event bob_2])
   \<and> deliveries (snd (sendMessage (mem_save spec_validators) mem_findById 7 bob_2 (Some too_long)
         two_present)) (connected two_present) =
       [(''s2'', ''error'', Object [(''message'', ''Failed to send message'')])]"
proof -
  have b1: "field blank ''content'' = Some ''''" by (simp add: blank_def field_def)
  have b2: "list_all whitespace ''''" by simp
  have s1: "field spaces ''content'' = Some ''   ''" by (simp add: spaces_def field_def)
  have s2: "list_all whitespace ''   ''" by (simp add: whitespace_def)
  have l1: "field too_long ''content'' = Some (replicate 1001 CHR ''a'')"
    by (simp add: too_long_def field_def)
  have l2: "1000 < length (replicate 1001 CHR ''a'')" by simp
  from handler_makes_no_content_check
         [of "mem_save spec_validators" mem_findById 7 bob_2 blank two_present "connected two_present"
             two_present] b1 b2
  have rb: "sendMessage (mem_save spec_validators) mem_findById 7 bob_2 (Some blank) two_present =
       (two_present, [Save \<lparr>sender = user_id (user bob_2), content = Some '''', timestamp = 7\<rparr>,
                      error_event bob_2])"
    by blast
  from handler_makes_no_content_check
         [of "mem_save spec_validators" mem_findById 7 bob_2 spaces two_present "connected two_present"
             two_present] s1 s2
  have rs: "sendMessage (mem_save spec_validators) mem_findById 7 bob_2 (Some spaces) two_present =
       (two_present, [Save \<lparr>sender = user_id (user bob_2), content = Some ''   '', timestamp = 7\<rparr>,
                      error_event bob_2])"
    by blast
  from handler_makes_no_content_check
         [of "mem_save spec_validators" mem_findById 7 bob_2 too_long two_present "connected two_present"
             two_present] l1 l2
  have rl: "sendMessage (mem_save spec_validators) mem_findById 7 bob_2 (Some too_long) two_present =
       (two_present,
        [Save \<lparr>sender = user_id (user bob_2), content = Some (replicate 1001 CHR ''a''), timestamp = 7\<rparr>,
         error_event bob_2])
     \<and> deliveries (snd (sendMessage (mem_save spec_validators) mem_findById 7 bob_2 (Some too_long)
         two_present)) (connected two_present) =
       [(socket_id bob_2, ''error'', Object [(''message'', ''Failed to send message'')])]"
    by blast
  have u: "user_id (user bob_2) = ''u2''" "socket_id bob_2 = ''s2''" by (simp_all add: bob_2_def)
  from b1 b2 s1 s2 l1 l2 rb rs rl show ?thesis
    by (simp add: u blank_doc_def error_event_def)
qed

text \<open>
  Claim C2 as stated fails at the empty content on two points. The persistence call is
  made: the handler's first effect is \<^verbatim>\<open>save\<close> of the empty document, with a store
  that has the specification's content rule and with a store that is down alike. And
  there is no error of its own for invalid content: the refusal of the empty content and
  the failure of the store on the valid content \<^verbatim>\<open>hi\<close> end in the same
  \<^verbatim>\<open>Failed to send message\<close> event.
\<close>

theorem persistence_call_made_counterexample:
  "sendMessage (mem_save spec_validators) mem_findById 7 bob_2 (Some blank) two_present =
     (two_present, [Save blank_doc, error_event bob_2])
   \<and> sendMessage store_down mem_findById 7 bob_2 (Some blank) two_present =
     (two_present, [Save blank_doc, error_event bob_2])
   \<and> sendMessage store_down mem_findById 7 bob_2 (Some hi) two_present =
     (two_present, [Save hi_doc, error_event bob_2])
   \<and> error_event bob_2 =
     Emit (ToSocket ''s2'') ''error'' (Object [(''message'', ''Failed to send message'')])"
  by (simp add: sendMessage_def sendMessage_try_def Let_def mem_save_def store_down_def
      spec_validators_def blank_def blank_doc_def hi_def hi_doc_def
      bob_2_def field_def error_event_def)

lemma mem_broadcast_sender:
  "Emit t ''newMessage'' (Msg (Some m))
     \<in> set (snd (sendMessage (mem_save validators) mem_findById now s data mst)) \<Longrightarrow>
   msg_sender m = None \<or> (\<exists>name. msg_sender m = Some [(''_id'', user_id (user s)), (''username'', name)])"
  by (auto simp: sendMessage_def sendMessage_try_def Let_def error_event_def mem_save_def
      mem_findById_def populate_def nth_append
      split: option.splits sum.splits prod.splits if_splits)

lemma sendMessage_saved_sender:
  "Save doc \<in> set (snd (sendMessage save findById now s data st)) \<Longrightarrow> sender doc = user_id (user s)"
  by (auto simp: sendMessage_def sendMessage_try_def Let_def error_event_def
      split: option.splits sum.splits prod.splits)

text \<open>
  Claim C6. Two payloads that differ only in a \<^verbatim>\<open>sender\<close> field give the same
  run of the handler: same state, same calls, same emits. Every document handed to
  \<^verbatim>\<open>save\<close> has the socket's authenticated user id as its sender, and with the
  store of section 6 the sender of every broadcast message is that id (or \<^verbatim>\<open>null\<close>
  when the user document is gone).
\<close>

theorem sender_is_the_authenticated_identity:
  assumes "\<forall>k. k \<noteq> ''sender'' \<longrightarrow> field d1 k = field d2 k"
  shows "sendMessage save findById now s (Some d1) st = sendMessage save findById now s (Some d2) st
       \<and> (\<forall>doc. Save doc \<in> set (snd (sendMessage save findById now s (Some d1) st))
            \<longrightarrow> sender doc = user_id (user s))
       \<and> (\<forall>t m. Emit t ''newMessage'' (Msg (Some m))
                  \<in> set (snd (sendMessage (mem_save validators) mem_findById now s (Some d1) mst))
            \<longrightarrow> msg_sender m = None
              \<or> (\<exists>name. msg_sender m = Some [(''_id'', user_id (user s)), (''username'', name)]))"
proof -
  from assms have c: "field d1 ''content'' = field d2 ''content''" by simp
  have 1: "sendMessage save findById now s (Some d1) st = sendMessage save findById now s (Some d2) st"
    by (simp add: sendMessage_def sendMessage_try_def c)
  from 1 sendMessage_saved_sender mem_broadcast_sender show ?thesis by blast
qed

text \<open>
  bob's \<^verbatim>\<open>hi\<close> with \<^verbatim>\<open>sender: 'u1'\<close> added: saved and broadcast with bob as the
  sender.
\<close>

theorem sender_is_the_authenticated_identity_witness:
  "field hi_spoofed ''sender'' = Some ''u1''
   \<and> field hi ''sender'' = None
   \<and> sendMessage (mem_save spec_validators) mem_findById 7 bob_2 (Some hi_spoofed) two_present =
       (two_present\<lparr>db := db0\<lparr>messages := [hi_doc]\<rparr>\<rparr>,
        [Save hi_doc, FindById ''m'', Emit ToAll ''newMessage'' (Msg (Some hello))])
   \<and> sender hi_doc = user_id (user bob_2)
   \<and> msg_sender hello = Some [(''_id'', user_id (user bob_2)), (''username'', ''bob'')]"
proof -
  have h: "\<forall>k. k \<noteq> ''sender'' \<longrightarrow> field hi k = field hi_spoofed k"
    by (simp add: field_def hi_def hi_spoofed_def)
  have r: "sendMessage (mem_save spec_validators) mem_findById 7 bob_2 (Some hi) two_present =
       (two_present\<lparr>db := db0\<lparr>messages := [hi_doc]\<rparr>\<rparr>,
        [Save hi_doc, FindById ''m'', Emit ToAll ''newMessage'' (Msg (Some hello))])"
    by (simp add: sendMessage_ok[where i = "''m''" and db' = "db0\<lparr>messages := [hi_doc]\<rparr>"]
        two_present_save_hi find_hi)
       (simp add: hi_def hi_doc_def bob_2_def field_def)
  from sender_is_the_authenticated_identity
         [OF h, of "mem_save spec_validators" mem_findById 7 bob_2 two_present spec_validators two_present]
  show ?thesis
    using r by (simp add: hi_doc_def hello_def bob_2_def field_def hi_def hi_spoofed_def)
qed

end
